theory Spec2Isabelle
  imports Main
begin

section \<open>Python strings and slices\<close>

text \<open>
  A Python \<open>str\<close> is a sequence of Unicode code points, and \<open>len\<close> counts code points;
  a string is therefore modelled as the list of its code points.
\<close>

type_synonym pystr = "nat list"

definition ascii :: "string \<Rightarrow> pystr" where
  "ascii s = map of_char s"

text \<open>
  \<open>str.isspace\<close> on one character: the code points U+0009..U+000D, U+001C..U+0020, U+0085,
  U+00A0, U+1680, U+2000..U+200A, U+2028, U+2029, U+202F, U+205F and U+3000.
\<close>

definition py_isspace :: "nat \<Rightarrow> bool" where
  "py_isspace c \<longleftrightarrow>
     (9 \<le> c \<and> c \<le> 13) \<or> (28 \<le> c \<and> c \<le> 32) \<or> c = 133 \<or> c = 160 \<or> c = 5760 \<or>
     (8192 \<le> c \<and> c \<le> 8202) \<or> c = 8232 \<or> c = 8233 \<or> c = 8239 \<or> c = 8287 \<or> c = 12288"

text \<open>\<open>s.strip()\<close>: leading and trailing whitespace removed.\<close>

definition py_strip :: "pystr \<Rightarrow> pystr" where
  "py_strip s = rev (dropWhile py_isspace (rev (dropWhile py_isspace s)))"

text \<open>
  \<open>xs[i:j]\<close>: a negative bound counts from the end, both bounds are clamped to
  \<open>0..len(xs)\<close>, and the slice is empty when the lower bound is not below the upper one.
\<close>

definition py_slice :: "'a list \<Rightarrow> int \<Rightarrow> int \<Rightarrow> 'a list" where
  "py_slice xs i j =
     (let n = int (length xs);
          a = (if i < 0 then max (i + n) 0 else min i n);
          b = (if j < 0 then max (j + n) 0 else min j n)
      in take (nat (b - a)) (drop (nat a) xs))"

section \<open>Python exceptions\<close>

text \<open>
  Python exceptions as values, each with the text \<open>str(e)\<close> gives. \<open>ProviderError\<close> is
  whatever the embedding client raises; \<open>OtherException\<close> is any other subclass of
  \<open>Exception\<close>.
\<close>

datatype error =
    ValueError pystr
  | IndexError
  | ZeroDivisionError
  | RuntimeError pystr
  | ProviderError pystr
  | FileNotFoundError pystr
  | UnicodeDecodeError pystr
  | UnicodeEncodeError pystr
  | ParserError pystr
  | OtherException pystr

section \<open>chunker.py: fixed-window chunking\<close>

text \<open>
  The \<open>while start < L\<close> loop of \<open>simple_chunk_text\<close>. Nothing in the loop itself bounds
  the parameters, so it is a partial function: \<open>None\<close> is a run that never returns.
\<close>

partial_function (option) chunk_loop ::
  "pystr \<Rightarrow> int \<Rightarrow> int \<Rightarrow> int \<Rightarrow> pystr list \<Rightarrow> pystr list option" where
  "chunk_loop text chunk_size overlap start chunks =
     (let L = int (length text) in
      if start < L then
        let end' = min (start + chunk_size) L;
            chunk = py_strip (py_slice text start end');
            chunks' = (if chunk \<noteq> [] then chunks @ [chunk] else chunks);
            start' = end' - overlap;
            start'' = (if start' < 0 then 0 else start')
        in if start'' \<ge> L \<or> end' = L then Some chunks'
           else chunk_loop text chunk_size overlap start'' chunks'
      else Some chunks)"

definition simple_chunk_text :: "pystr \<Rightarrow> int \<Rightarrow> int \<Rightarrow> (error + pystr list) option" where
  "simple_chunk_text text chunk_size overlap =
     (if chunk_size \<le> 0 then Some (Inl (ValueError (ascii ''chunk_size must be > 0'')))
      else if overlap \<ge> chunk_size then Some (Inl (ValueError (ascii ''overlap must be < chunk_size'')))
      else map_option Inr (chunk_loop text chunk_size overlap 0 []))"

text \<open>
  Position \<open>i\<close> of \<open>text\<close> is covered by the fragments when one of them is
  \<open>text[a:b]\<close> for a range with \<open>a \<le> i < b \<le> len(text)\<close>.
\<close>

definition covered_by :: "pystr \<Rightarrow> pystr list \<Rightarrow> nat \<Rightarrow> bool" where
  "covered_by text chunks i \<longleftrightarrow>
     (\<exists>a \<in> {0..i}. \<exists>b \<in> {i<..length text}. py_slice text (int a) (int b) \<in> set chunks)"

section \<open>embedder.py and store_manager.py: batched embedding\<close>

definition DEFAULT_TOP_RERANK :: nat where
  "DEFAULT_TOP_RERANK = 10"

text \<open>
  The embedding provider is outside the repository. One request,
  \<open>client.embeddings.create(model=..., input=batch)\<close> followed by
  \<open>[item.embedding for item in res.data]\<close>, is a function from the batch to the exception
  raised or the list of embeddings returned; an embedding is a list of numbers of some
  type \<open>'a\<close>.
\<close>

type_synonym 'a provider = "pystr list \<Rightarrow> error + 'a list list"

text \<open>
  A run of an embedding function: the requests issued to the provider, in order, and the
  outcome.
\<close>

type_synonym ('a, 'r) embed_run = "pystr list list \<times> (error + 'r)"

text \<open>
  The loop \<open>for i in range(0, len(texts), DEFAULT_TOP_RERANK)\<close>, shared by \<open>embed_text\<close> and
  \<open>QwenEmbeddings.embed_documents\<close>: \<open>embeddings\<close> accumulates the answers, \<open>sent\<close> the
  requests. An exception of the provider ends the run.
\<close>

function embed_batches ::
  "'a provider \<Rightarrow> pystr list \<Rightarrow> nat \<Rightarrow> 'a list list \<Rightarrow> pystr list list \<Rightarrow>
     ('a, 'a list list) embed_run" where
  "embed_batches create texts i embeddings sent =
     (if i < length texts then
        let batch = py_slice texts (int i) (int (i + DEFAULT_TOP_RERANK)) in
        case create batch of
          Inl e \<Rightarrow> (sent @ [batch], Inl e)
        | Inr vectors \<Rightarrow>
            embed_batches create texts (i + DEFAULT_TOP_RERANK) (embeddings @ vectors) (sent @ [batch])
      else (sent, Inr embeddings))"
  by pat_completeness auto
termination
  by (relation "measure (\<lambda>(create, texts, i, embeddings, sent). length texts - i)")
     (auto simp: DEFAULT_TOP_RERANK_def)

declare embed_batches.simps [simp del]

text \<open>\<open>QwenEmbeddings.embed_documents\<close> (store_manager.py).\<close>

definition embed_documents :: "'a provider \<Rightarrow> pystr list \<Rightarrow> ('a, 'a list list) embed_run" where
  "embed_documents create texts =
     (if length texts > DEFAULT_TOP_RERANK then embed_batches create texts 0 [] []
      else ([texts], create texts))"

text \<open>
  \<open>embed_text\<close> (embedder.py) takes one string or a list of strings, and returns one
  embedding or a list of embeddings. \<open>embeddings[0]\<close> raises IndexError on an empty list.
\<close>

datatype texts_arg = Str pystr | Strs "pystr list"

datatype 'a embeddings = Vector "'a list" | Vectors "'a list list"

definition embed_text :: "'a provider \<Rightarrow> texts_arg \<Rightarrow> ('a, 'a embeddings) embed_run" where
  "embed_text create texts_in =
     (let (texts, single_input) = (case texts_in of Str s \<Rightarrow> ([s], True) | Strs l \<Rightarrow> (l, False));
          (sent, res) = (if length texts > DEFAULT_TOP_RERANK then embed_batches create texts 0 [] []
                         else ([texts], create texts))
      in (sent,
          case res of
            Inl e \<Rightarrow> Inl e
          | Inr embeddings \<Rightarrow>
              if single_input then
                (case embeddings of [] \<Rightarrow> Inl IndexError | v # _ \<Rightarrow> Inr (Vector v))
              else Inr (Vectors embeddings)))"

text \<open>\<open>len(vectors)\<close> on what \<open>embed_text\<close> returned.\<close>

fun embeddings_len :: "'a embeddings \<Rightarrow> nat" where
  "embeddings_len (Vector v) = length v"
| "embeddings_len (Vectors vs) = length vs"

text \<open>
  The message of the RuntimeError of \<open>main\<close> in embedder.py: \<open>"embeddings "\<close> followed by
  the code points U+6570 U+91CF U+4E0E U+6587 U+672C U+6570 U+91CF U+4E0D U+4E00 U+81F4
  ("the number of embeddings differs from the number of texts").
\<close>

definition COUNT_MISMATCH :: pystr where
  "COUNT_MISMATCH = ascii ''embeddings '' @
     [25968, 37327, 19982, 25991, 26412, 25968, 37327, 19981, 19968, 33268]"

text \<open>
  \<open>main\<close> of embedder.py from the texts loaded at line 73 to the count check of lines 96
  and 97, as the value \<open>vectors\<close> has after it. Line 78 prints the average length of the
  texts, \<open>sum(len(t) for t in texts) / len(texts)\<close>, which raises ZeroDivisionError for
  an empty list, before \<open>embed_text\<close> is called. The other lines in between print text
  that does not depend on the texts.
\<close>

definition embedder_main_vectors :: "'a provider \<Rightarrow> pystr list \<Rightarrow> error + 'a embeddings" where
  "embedder_main_vectors create texts =
     (if length texts = 0 then Inl ZeroDivisionError
      else
        case snd (embed_text create (Strs texts)) of
          Inl e \<Rightarrow> Inl e
        | Inr vectors \<Rightarrow>
            if embeddings_len vectors \<noteq> length texts then Inl (RuntimeError COUNT_MISMATCH)
            else Inr vectors)"

section \<open>llm_with_rag.py and quickstart/rag_basic.py: prompt assembly\<close>

text \<open>
  A retrieved document is accessed by attribute, with defaults: \<open>page_content\<close>,
  \<open>content\<close> and \<open>metadata\<close> may each be absent, and \<open>str(d)\<close> always exists. The
  metadata is a dictionary.
\<close>

record document =
  page_content :: "pystr option"
  content :: "pystr option"
  metadata :: "(pystr \<rightharpoonup> pystr) option"
  str_of :: pystr

text \<open>\<open>str(i)\<close> for an integer \<open>i \<ge> 0\<close>: its decimal digits.\<close>

fun str_int :: "nat \<Rightarrow> pystr" where
  "str_int n = (if n < 10 then [48 + n] else str_int (n div 10) @ [48 + n mod 10])"

declare str_int.simps [simp del]

text \<open>The number a string of decimal digits denotes.\<close>

definition int_of_str :: "pystr \<Rightarrow> nat" where
  "int_of_str s = foldl (\<lambda>acc c. 10 * acc + (c - 48)) 0 s"

text \<open>\<open>sep.join(parts)\<close>.\<close>

fun py_join :: "pystr \<Rightarrow> pystr list \<Rightarrow> pystr" where
  "py_join sep [] = []"
| "py_join sep [p] = p"
| "py_join sep (p # q # ps) = p @ sep @ py_join sep (q # ps)"

text \<open>\<open>sub in s\<close> for strings: \<open>sub\<close> occurs in \<open>s\<close> as a contiguous substring.\<close>

fun py_in :: "pystr \<Rightarrow> pystr \<Rightarrow> bool" where
  "py_in sub [] = (sub = [])"
| "py_in sub (c # s) = (take (length sub) (c # s) = sub \<or> py_in sub s)"

text \<open>The code points U+7528 U+6237 U+95EE U+9898 ("user question"), then a fullwidth colon U+FF1A.\<close>

definition USER_QUESTION :: pystr where
  "USER_QUESTION = [29992, 25143, 38382, 39064, 65306]"

text \<open>The code points U+6211 U+4E0D U+77E5 U+9053 ("I do not know"), the answer asked for when nothing is known.\<close>

definition I_DONT_KNOW :: pystr where
  "I_DONT_KNOW = [25105, 19981, 30693, 36947]"

text \<open>The code points U+672A U+68C0 U+7D22 U+5230 U+76F8 U+5173 U+6587 U+6863 ("no relevant document was retrieved").\<close>

definition NOT_RETRIEVED :: pystr where
  "NOT_RETRIEVED = [26410, 26816, 32034, 21040, 30456, 20851, 25991, 26723]"

text \<open>The code points U+57FA U+4E8E U+8FD9 U+4E9B U+7247 U+6BB5 ("based on these fragments"); both prompts put a word for "only" before it.\<close>

definition BASED_ON_FRAGMENTS :: pystr where
  "BASED_ON_FRAGMENTS = [22522, 20110, 36825, 20123, 29255, 27573]"

text \<open>The code points U+5217 U+51FA U+5F15 U+7528 U+6765 U+6E90 ("list the cited sources").\<close>

definition LIST_SOURCES :: pystr where
  "LIST_SOURCES = [21015, 20986, 24341, 29992, 26469, 28304]"

text \<open>
  The code points U+7247 U+6BB5 U+7F16 U+53F7 ("fragment number"), what a label gives
  besides the source; its first two code points are the word "fragment".
\<close>

definition FRAGMENT_NUMBER :: pystr where
  "FRAGMENT_NUMBER = [29255, 27573, 32534, 21495]"

text \<open>The opening of a label: a left bracket, U+7247 U+6BB5 ("fragment") and a space.\<close>

definition FRAGMENT_OPEN :: pystr where
  "FRAGMENT_OPEN = [91, 29255, 27573, 32]"

text \<open>Between position and source: space, vertical bar, space, U+6765 U+6E90 ("source"), colon, space.\<close>

definition SOURCE_SEP :: pystr where
  "SOURCE_SEP = [32, 124, 32, 26469, 28304, 58, 32]"

text \<open>The literal that opens the prompt of \<open>make_prompt\<close>: "below are the retrieved knowledge fragments (for reference only); answer the user question based only on these fragments; if they hold nothing relevant, answer I do not know", then two newlines.\<close>

definition MAKE_PROMPT_HEAD :: pystr where
  "MAKE_PROMPT_HEAD = [19979, 38754, 26159, 26816, 32034, 21040, 30340, 30693, 35782, 29255, 27573, 65288, 20165, 20379, 21442, 32771, 65289, 12290, 35831, 42, 42, 20165] @ BASED_ON_FRAGMENTS @
     [42, 42, 22238, 31572, 29992, 25143, 38382, 39064, 65292, 22914, 26524, 29255, 27573, 20013, 27809, 26377, 30456, 20851, 20449, 24687, 65292, 35831, 22238, 31572, 8220] @ I_DONT_KNOW @ [8221, 12290, 10, 10]"

text \<open>The literal that closes the prompt of \<open>make_prompt\<close>: two newlines, "give a short and exact answer, and list the cited sources at the end".\<close>

definition MAKE_PROMPT_TAIL :: pystr where
  "MAKE_PROMPT_TAIL = [10, 10, 35831, 32473, 20986, 31616, 27905, 20934, 30830, 30340, 22238, 31572, 65292, 24182, 22312, 26411, 23614] @ LIST_SOURCES @ [12290]"

text \<open>The literal that closes the prompt of \<open>build_prompt\<close> for no documents: two newlines, "note: no relevant document was retrieved, answer "I do not know"".\<close>

definition NO_DOCS_NOTE :: pystr where
  "NO_DOCS_NOTE = [10, 10, 27880, 24847, 65306] @ NOT_RETRIEVED @ [65292, 35831, 22238, 31572, 34] @ I_DONT_KNOW @ [34, 12290]"

text \<open>The literal that opens the prompt of \<open>build_prompt\<close>: "below are the retrieved knowledge fragments (maybe redundant); answer the question based only on these fragments", newline, "if they hold nothing relevant, answer "I do not know"", two newlines, "the retrieved fragments:", newline.\<close>

definition BUILD_PROMPT_HEAD :: pystr where
  "BUILD_PROMPT_HEAD = [19979, 38754, 26159, 26816, 32034, 21040, 30340, 30693, 35782, 29255, 27573, 65288, 21487, 33021, 26377, 20887, 20313, 65289, 65292, 35831, 32, 42, 42, 21482] @ BASED_ON_FRAGMENTS @
     [42, 42, 32, 22238, 31572, 38382, 39064, 12290, 10, 22914, 26524, 29255, 27573, 20013, 27809, 26377, 30456, 20851, 20449, 24687, 65292, 35831, 22238, 31572, 34] @ I_DONT_KNOW @
     [34, 12290, 10, 10, 24050, 26816, 32034, 21040, 30340, 29255, 27573, 65306, 10]"

text \<open>The literal that closes the prompt of \<open>build_prompt\<close>: two newlines, "give a short and exact answer, and list the cited sources at the end (file name and fragment number)".\<close>

definition BUILD_PROMPT_TAIL :: pystr where
  "BUILD_PROMPT_TAIL = [10, 10, 35831, 32473, 20986, 31616, 27905, 20934, 30830, 30340, 22238, 31572, 65292, 24182, 22312, 26368, 21518] @ LIST_SOURCES @
     [65288, 25991, 20214, 21517, 21644, 29255, 27573, 32534, 21495, 65289, 12290]"

text \<open>\<open>getattr(d, "page_content", getattr(d, "content", str(d)))\<close> of \<open>make_prompt\<close>.\<close>

definition make_prompt_text :: "document \<Rightarrow> pystr" where
  "make_prompt_text d =
     (case page_content d of
        Some t \<Rightarrow> t
      | None \<Rightarrow> (case content d of Some t \<Rightarrow> t | None \<Rightarrow> str_of d))"

text \<open>\<open>getattr(d, "page_content", str(d))\<close> of \<open>build_prompt\<close>.\<close>

definition build_prompt_text :: "document \<Rightarrow> pystr" where
  "build_prompt_text d = (case page_content d of Some t \<Rightarrow> t | None \<Rightarrow> str_of d)"

text \<open>\<open>d.metadata.get("source", "unknown") if hasattr(d, "metadata") else "unknown"\<close>.\<close>

definition doc_source :: "document \<Rightarrow> pystr" where
  "doc_source d =
     (case metadata d of
        Some m \<Rightarrow> (case m (ascii ''source'') of Some src \<Rightarrow> src | None \<Rightarrow> ascii ''unknown'')
      | None \<Rightarrow> ascii ''unknown'')"

text \<open>The labelled fragment: the f-string with \<open>i\<close>, \<open>src\<close> and \<open>text\<close>, the same in both files.\<close>

definition fragment_part :: "nat \<Rightarrow> pystr \<Rightarrow> pystr \<Rightarrow> pystr" where
  "fragment_part i src text = FRAGMENT_OPEN @ str_int i @ SOURCE_SEP @ src @ [93, 10] @ text @ [10]"

text \<open>
  The loop \<open>for i, d in enumerate(docs, start=1): parts.append(...)\<close>, from position \<open>i\<close>
  on, for \<open>make_prompt\<close> and for \<open>build_prompt\<close>.
\<close>

fun make_prompt_parts :: "nat \<Rightarrow> document list \<Rightarrow> pystr list" where
  "make_prompt_parts i [] = []"
| "make_prompt_parts i (d # docs) =
     fragment_part i (doc_source d) (make_prompt_text d) # make_prompt_parts (i + 1) docs"

fun build_prompt_parts :: "nat \<Rightarrow> document list \<Rightarrow> pystr list" where
  "build_prompt_parts i [] = []"
| "build_prompt_parts i (d # docs) =
     fragment_part i (doc_source d) (build_prompt_text d) # build_prompt_parts (i + 1) docs"

definition make_prompt :: "pystr \<Rightarrow> document list \<Rightarrow> pystr" where
  "make_prompt query docs =
     (let parts = make_prompt_parts 1 docs;
          context = py_join [10] parts
      in MAKE_PROMPT_HEAD @ context @ [10] @ USER_QUESTION @ query @ MAKE_PROMPT_TAIL)"

definition build_prompt :: "pystr \<Rightarrow> document list \<Rightarrow> pystr" where
  "build_prompt query docs =
     (if docs = [] then USER_QUESTION @ query @ NO_DOCS_NOTE
      else
        let parts = build_prompt_parts 1 docs;
            context = py_join [10] parts
        in BUILD_PROMPT_HEAD @ context @ [10, 10] @ USER_QUESTION @ query @ BUILD_PROMPT_TAIL)"

section \<open>quickstart/rag_basic.py: the chunking loop\<close>

definition CHUNK_SIZE :: int where
  "CHUNK_SIZE = 500"

definition CHUNK_OVERLAP :: int where
  "CHUNK_OVERLAP = 100"

text \<open>A document read from the data directory, and the metadata stored with a chunk.\<close>

record raw_doc =
  doc_text :: pystr
  doc_name :: pystr

record chunk_meta =
  meta_source :: pystr
  chunk_index :: int

text \<open>
  The \<open>while start < len(txt)\<close> loop of one document, on the lists \<open>chunks\<close> and
  \<open>metadatas\<close> shared by all documents. The loop is written for any size and overlap; the
  script runs it with \<open>CHUNK_SIZE\<close> and \<open>CHUNK_OVERLAP\<close>.
\<close>

partial_function (option) quickstart_chunk_loop ::
  "pystr \<Rightarrow> pystr \<Rightarrow> int \<Rightarrow> int \<Rightarrow> int \<Rightarrow> int \<Rightarrow> pystr list \<times> chunk_meta list \<Rightarrow>
     (pystr list \<times> chunk_meta list) option" where
  "quickstart_chunk_loop txt source chunk_size chunk_overlap start idx st =
     (if start < int (length txt) then
        let end' = min (start + chunk_size) (int (length txt));
            chunk_text = py_strip (py_slice txt start end')
        in if chunk_text = [] then Some st
           else
             let meta = \<lparr>meta_source = source, chunk_index = idx\<rparr>;
                 st' = (fst st @ [chunk_text], snd st @ [meta]);
                 idx' = idx + 1;
                 start' = (if end' - chunk_overlap > start then end' - chunk_overlap else end')
             in if start' \<ge> int (length txt) then Some st'
                else quickstart_chunk_loop txt source chunk_size chunk_overlap start' idx' st'
      else Some st)"

text \<open>The body of \<open>for doc in raw_docs\<close>: one document, from \<open>start = 0\<close> and \<open>idx = 0\<close>.\<close>

definition quickstart_chunk_doc ::
  "raw_doc \<Rightarrow> pystr list \<times> chunk_meta list \<Rightarrow> (pystr list \<times> chunk_meta list) option" where
  "quickstart_chunk_doc doc st =
     quickstart_chunk_loop (doc_text doc) (doc_name doc) CHUNK_SIZE CHUNK_OVERLAP 0 0 st"

section \<open>extractor.py: text extraction\<close>

text \<open>\<open>str(e)\<close> of an exception.\<close>

fun str_error :: "error \<Rightarrow> pystr" where
  "str_error (ValueError m) = m"
| "str_error IndexError = ascii ''list index out of range''"
| "str_error ZeroDivisionError = ascii ''division by zero''"
| "str_error (RuntimeError m) = m"
| "str_error (ProviderError m) = m"
| "str_error (FileNotFoundError m) = m"
| "str_error (UnicodeDecodeError m) = m"
| "str_error (UnicodeEncodeError m) = m"
| "str_error (ParserError m) = m"
| "str_error (OtherException m) = m"

text \<open>A Word document as \<open>python-docx\<close> presents it: paragraph texts, and tables of rows of cell texts.\<close>

record docx =
  paragraphs :: "pystr list"
  tables :: "pystr list list list"

text \<open>
  A data frame is used only through \<open>to_string\<close>, so it is modelled by what that call
  gives: the exception it raises or the rendered text.
\<close>

type_synonym frame = "error + pystr"

text \<open>
  The file system and the libraries the extractors call, as oracles: each call gives the
  exception raised or the value returned.
  \<^item> \<open>path_exists\<close>: \<open>os.path.exists\<close>;
  \<^item> \<open>pdf_open\<close>: \<open>pdfplumber.open(path).pages\<close>, each page as what \<open>extract_text()\<close> gives
    (it may return None);
  \<^item> \<open>read_excel\<close>: \<open>pd.read_excel(path, sheet_name=None, header=None).items()\<close>, each sheet as
    its name, \<open>df.empty\<close> and the frame;
  \<^item> \<open>read_text\<close>: opening the file as UTF-8 and reading it;
  \<^item> \<open>re_sub_markdown\<close>: the twelve \<open>re.sub\<close> calls of \<open>extract_markdown\<close>, which raise nothing;
  \<^item> \<open>docx_open\<close>: \<open>Document(path)\<close>;
  \<^item> \<open>read_csv\<close>: \<open>pd.read_csv(path, encoding=..., on_bad_lines='skip')\<close>;
  \<^item> \<open>detect_encoding\<close>: reading the file in binary mode and \<open>chardet.detect(...)['encoding']\<close>,
    which may be None;
  \<^item> \<open>splitext_lower\<close>: \<open>os.path.splitext(path)[-1].lower()\<close>;
  \<^item> \<open>console_print\<close>: \<open>print(s)\<close>, None when it returns and the exception when it raises:
    standard output encodes the string, and raises UnicodeEncodeError for a character
    its encoding does not have, as UTF-8 does for a lone surrogate (U+D800..U+DFFF).
  \<open>traceback.print_exc()\<close> writes to standard error, which replaces what it cannot encode,
  and is taken to raise nothing.
\<close>

record world =
  path_exists :: "pystr \<Rightarrow> bool"
  pdf_open :: "pystr \<Rightarrow> error + (error + pystr option) list"
  read_excel :: "pystr \<Rightarrow> error + (pystr \<times> bool \<times> frame) list"
  read_text :: "pystr \<Rightarrow> error + pystr"
  re_sub_markdown :: "pystr \<Rightarrow> pystr"
  docx_open :: "pystr \<Rightarrow> error + docx"
  read_csv :: "pystr \<Rightarrow> pystr option \<Rightarrow> error + frame"
  detect_encoding :: "pystr \<Rightarrow> error + pystr option"
  splitext_lower :: "pystr \<Rightarrow> pystr"
  console_print :: "pystr \<Rightarrow> error option"

text \<open>\<open>print(s)\<close> followed by the rest of the block.\<close>

definition printed :: "world \<Rightarrow> pystr \<Rightarrow> error + 'a \<Rightarrow> error + 'a" where
  "printed w s rest = (case console_print w s of Some e \<Rightarrow> Inl e | None \<Rightarrow> rest)"

text \<open>
  The two progress messages: \<open>[INFO]\<close>, U+6B63 U+5728 U+5C1D U+8BD5 U+4ECE ("trying, from"),
  the quoted path, U+63D0 U+53D6 U+6587 U+672C ("extract text") and three dots; and
  \<open>[INFO]\<close>, U+6210 U+529F U+4ECE ("succeeded, from"), the kind, U+63D0 U+53D6 U+6587 U+672C
  and an ideographic full stop.
\<close>

definition info_trying :: "pystr \<Rightarrow> pystr" where
  "info_trying path =
     ascii ''[INFO] '' @ [27491, 22312, 23581, 35797, 20174, 32, 39] @ path @
     [39, 32, 25552, 21462, 25991, 26412, 46, 46, 46]"

definition info_done :: "string \<Rightarrow> pystr" where
  "info_done kind =
     ascii ''[INFO] '' @ [25104, 21151, 20174, 32] @ ascii kind @
     [32, 25552, 21462, 25991, 26412, 12290]"

definition ERROR_TAG :: pystr where
  "ERROR_TAG = ascii ''[ERROR]''"

text \<open>
  The message of the FileNotFoundError an extractor raises for a missing file: the kind
  (\<open>PDF\<close>, \<open>Excel\<close>, \<open>Markdown\<close>, \<open>Word\<close>, \<open>CSV\<close>), a space, U+6587 U+4EF6 U+4E0D U+5B58
  U+5728 ("file does not exist"), colon, space, and the path.
\<close>

definition missing_file :: "string \<Rightarrow> pystr \<Rightarrow> error" where
  "missing_file kind path =
     FileNotFoundError (ascii kind @ [32, 25991, 20214, 19981, 23384, 22312, 58, 32] @ path)"

text \<open>
  The two \<open>except\<close> clauses, the same in the five extractors but for the kind: each
  builds \<open>error_msg\<close>, prints it, prints the traceback in the second clause, and only then
  assigns it to \<open>text_content\<close>; an exception of \<open>print\<close> leaves the function. The
  result is the exception raised or the value of \<open>text_content\<close> after the \<open>try\<close>
  statement. For FileNotFoundError the message is the tag, a space, U+6587 U+4EF6 U+672A
  U+627E U+5230 ("file not found"), colon, space and the text of the exception; for any
  other exception it is the tag, a space, U+4ECE ("from"), the kind, the quoted path,
  U+63D0 U+53D6 U+6587 U+672C U+65F6 U+51FA U+9519 ("error while extracting text"), colon,
  space and the text of the exception.
\<close>

definition except_clauses :: "world \<Rightarrow> string \<Rightarrow> pystr \<Rightarrow> error + pystr \<Rightarrow> error + pystr" where
  "except_clauses w kind path r =
     (case r of
        Inr text_content \<Rightarrow> Inr text_content
      | Inl (FileNotFoundError m) \<Rightarrow>
          (let error_msg = ERROR_TAG @ [32, 25991, 20214, 26410, 25214, 21040, 58, 32] @ m
           in printed w error_msg (Inr error_msg))
      | Inl e \<Rightarrow>
          (let error_msg =
                 ERROR_TAG @ [32, 20174, 32] @ ascii kind @ [32, 39] @ path @
                 [39, 32, 25552, 21462, 25991, 26412, 26102, 20986, 38169, 58, 32] @ str_error e
           in printed w error_msg (Inr error_msg)))"

text \<open>\<open>return text_content.strip()\<close> after the \<open>try\<close> statement.\<close>

definition return_stripped :: "error + pystr \<Rightarrow> error + pystr" where
  "return_stripped r = (case r of Inl e \<Rightarrow> Inl e | Inr text_content \<Rightarrow> Inr (py_strip text_content))"

text \<open>\<open>extract_pdf\<close>: the loop over the pages, the \<open>try\<close> block, the function.\<close>

fun pdf_pages :: "(error + pystr option) list \<Rightarrow> pystr \<Rightarrow> error + pystr" where
  "pdf_pages [] text_content = Inr text_content"
| "pdf_pages (page # pages) text_content =
     (case page of
        Inl e \<Rightarrow> Inl e
      | Inr None \<Rightarrow> pdf_pages pages text_content
      | Inr (Some page_text) \<Rightarrow>
          pdf_pages pages (if page_text \<noteq> [] then text_content @ page_text @ [10] else text_content))"

definition extract_pdf_try :: "world \<Rightarrow> pystr \<Rightarrow> error + pystr" where
  "extract_pdf_try w pdf_path =
     (if \<not> path_exists w pdf_path then Inl (missing_file ''PDF'' pdf_path)
      else
        printed w (info_trying pdf_path)
          (case pdf_open w pdf_path of
             Inl e \<Rightarrow> Inl e
           | Inr pages \<Rightarrow>
               (case pdf_pages pages [] of
                  Inl e \<Rightarrow> Inl e
                | Inr text_content \<Rightarrow> printed w (info_done ''PDF'') (Inr text_content))))"

definition extract_pdf :: "world \<Rightarrow> pystr \<Rightarrow> error + pystr" where
  "extract_pdf w pdf_path =
     return_stripped (except_clauses w ''PDF'' pdf_path (extract_pdf_try w pdf_path))"

text \<open>
  \<open>extract_excel\<close>. A file with no non-empty sheet gives the text \<open>[INFO] Excel\<close> followed by
  U+6587 U+4EF6 U+4E2D U+6CA1 U+6709 U+6570 U+636E U+5185 U+5BB9 ("the file has no data").
\<close>

fun excel_sheets :: "(pystr \<times> bool \<times> frame) list \<Rightarrow> pystr \<Rightarrow> nat \<Rightarrow> error + pystr \<times> nat" where
  "excel_sheets [] text_content sheet_count = Inr (text_content, sheet_count)"
| "excel_sheets ((sheet_name, df_empty, df) # sheets) text_content sheet_count =
     (if df_empty then excel_sheets sheets text_content sheet_count
      else case df of
             Inl e \<Rightarrow> Inl e
           | Inr rendered \<Rightarrow>
               excel_sheets sheets
                 (text_content @ [10] @ ascii ''--- Sheet: '' @ sheet_name @ ascii '' ---'' @ [10] @
                  rendered @ [10])
                 (sheet_count + 1))"

definition extract_excel_try :: "world \<Rightarrow> pystr \<Rightarrow> error + pystr" where
  "extract_excel_try w excel_path =
     (if \<not> path_exists w excel_path then Inl (missing_file ''Excel'' excel_path)
      else
        printed w (info_trying excel_path)
          (case read_excel w excel_path of
             Inl e \<Rightarrow> Inl e
           | Inr excel_data \<Rightarrow>
               (case excel_sheets excel_data [] 0 of
                  Inl e \<Rightarrow> Inl e
                | Inr (text_content, sheet_count) \<Rightarrow>
                    if sheet_count = 0 then
                      Inr (ascii ''[INFO] Excel'' @
                           [25991, 20214, 20013, 27809, 26377, 25968, 25454, 20869, 23481])
                    else printed w (info_done ''Excel'') (Inr text_content))))"

definition extract_excel :: "world \<Rightarrow> pystr \<Rightarrow> error + pystr" where
  "extract_excel w excel_path =
     return_stripped (except_clauses w ''Excel'' excel_path (extract_excel_try w excel_path))"

text \<open>\<open>extract_markdown\<close>.\<close>

definition extract_markdown_try :: "world \<Rightarrow> pystr \<Rightarrow> error + pystr" where
  "extract_markdown_try w md_path =
     (if \<not> path_exists w md_path then Inl (missing_file ''Markdown'' md_path)
      else
        printed w (info_trying md_path)
          (case read_text w md_path of
             Inl e \<Rightarrow> Inl e
           | Inr text_content \<Rightarrow>
               printed w (info_done ''Markdown'') (Inr (re_sub_markdown w text_content))))"

definition extract_markdown :: "world \<Rightarrow> pystr \<Rightarrow> error + pystr" where
  "extract_markdown w md_path =
     return_stripped (except_clauses w ''Markdown'' md_path (extract_markdown_try w md_path))"

text \<open>
  \<open>extract_word\<close>: the paragraphs that are not blank, then each table between the markers
  \<open>[\<close>U+8868 U+683C U+5185 U+5BB9 U+5F00 U+59CB\<open>]\<close> ("table content begins") and
  \<open>[\<close>U+8868 U+683C U+5185 U+5BB9 U+7ED3 U+675F\<open>]\<close> ("table content ends"), one line per row, the
  stripped cells separated by tabs. \<open>rstrip_tab\<close> is \<open>s.rstrip("\t")\<close>.
\<close>

definition rstrip_tab :: "pystr \<Rightarrow> pystr" where
  "rstrip_tab s = rev (dropWhile (\<lambda>c. c = 9) (rev s))"

fun word_paragraphs :: "pystr list \<Rightarrow> pystr \<Rightarrow> pystr" where
  "word_paragraphs [] text_content = text_content"
| "word_paragraphs (paragraph # ps) text_content =
     word_paragraphs ps
       (if py_strip paragraph \<noteq> [] then text_content @ paragraph @ [10] else text_content)"

fun word_cells :: "pystr list \<Rightarrow> pystr \<Rightarrow> pystr" where
  "word_cells [] row_content = row_content"
| "word_cells (cell # cells) row_content = word_cells cells (row_content @ py_strip cell @ [9])"

fun word_rows :: "pystr list list \<Rightarrow> pystr \<Rightarrow> pystr" where
  "word_rows [] text_content = text_content"
| "word_rows (row # rows) text_content =
     word_rows rows (text_content @ rstrip_tab (word_cells row []) @ [10])"

fun word_tables :: "pystr list list list \<Rightarrow> pystr \<Rightarrow> pystr" where
  "word_tables [] text_content = text_content"
| "word_tables (table # ts) text_content =
     word_tables ts
       (word_rows table (text_content @ [10, 91, 34920, 26684, 20869, 23481, 24320, 22987, 93, 10]) @
        [91, 34920, 26684, 20869, 23481, 32467, 26463, 93, 10])"

definition extract_word_try :: "world \<Rightarrow> pystr \<Rightarrow> error + pystr" where
  "extract_word_try w word_path =
     (if \<not> path_exists w word_path then Inl (missing_file ''Word'' word_path)
      else
        printed w (info_trying word_path)
          (case docx_open w word_path of
             Inl e \<Rightarrow> Inl e
           | Inr doc \<Rightarrow>
               printed w (info_done ''Word'')
                 (Inr (word_tables (tables doc) (word_paragraphs (paragraphs doc) [])))))"

definition extract_word :: "world \<Rightarrow> pystr \<Rightarrow> error + pystr" where
  "extract_word w word_path =
     return_stripped (except_clauses w ''Word'' word_path (extract_word_try w word_path))"

text \<open>
  \<open>extract_csv\<close>: the encodings are tried in order; UnicodeDecodeError and ParserError move
  on to the next one, any other exception leaves the \<open>try\<close> block. When none worked the
  encoding is detected and the file read once more.
\<close>

definition csv_encodings :: "pystr list" where
  "csv_encodings = [ascii ''utf-8'', ascii ''gbk'', ascii ''gb2312'', ascii ''latin-1'']"

fun csv_try_encodings :: "world \<Rightarrow> pystr \<Rightarrow> pystr list \<Rightarrow> error + frame option" where
  "csv_try_encodings w csv_path [] = Inr None"
| "csv_try_encodings w csv_path (encoding # encodings) =
     (case read_csv w csv_path (Some encoding) of
        Inr df \<Rightarrow> Inr (Some df)
      | Inl (UnicodeDecodeError m) \<Rightarrow> csv_try_encodings w csv_path encodings
      | Inl (ParserError m) \<Rightarrow> csv_try_encodings w csv_path encodings
      | Inl e \<Rightarrow> Inl e)"

definition csv_read_frame :: "world \<Rightarrow> pystr \<Rightarrow> error + frame" where
  "csv_read_frame w csv_path =
     (case csv_try_encodings w csv_path csv_encodings of
        Inl e \<Rightarrow> Inl e
      | Inr (Some df) \<Rightarrow> Inr df
      | Inr None \<Rightarrow>
          (case detect_encoding w csv_path of
             Inl e \<Rightarrow> Inl e
           | Inr encoding \<Rightarrow> read_csv w csv_path encoding))"

definition extract_csv_try :: "world \<Rightarrow> pystr \<Rightarrow> error + pystr" where
  "extract_csv_try w csv_path =
     (if \<not> path_exists w csv_path then Inl (missing_file ''CSV'' csv_path)
      else
        printed w (info_trying csv_path)
          (case csv_read_frame w csv_path of
             Inl e \<Rightarrow> Inl e
           | Inr df \<Rightarrow>
               (case df of
                  Inl e \<Rightarrow> Inl e
                | Inr text_content \<Rightarrow> printed w (info_done ''CSV'') (Inr text_content))))"

definition extract_csv :: "world \<Rightarrow> pystr \<Rightarrow> error + pystr" where
  "extract_csv w csv_path =
     return_stripped (except_clauses w ''CSV'' csv_path (extract_csv_try w csv_path))"

text \<open>
  \<open>extract_file\<close>: the dispatch on the extension. An unsupported extension raises
  ValueError with U+4E0D U+652F U+6301 U+7684 U+6587 U+4EF6 U+7C7B U+578B ("unsupported
  file type"), colon, space and the extension.
\<close>

definition extract_file :: "world \<Rightarrow> pystr \<Rightarrow> error + pystr" where
  "extract_file w file_path =
     (let ext = splitext_lower w file_path in
      if ext = ascii ''.pdf'' then extract_pdf w file_path
      else if ext = ascii ''.docx'' then extract_word w file_path
      else if ext \<in> set [ascii ''.xls'', ascii ''.xlsx''] then extract_excel w file_path
      else if ext = ascii ''.md'' then extract_markdown w file_path
      else if ext = ascii ''.csv'' then extract_csv w file_path
      else Inl (ValueError ([19981, 25903, 25345, 30340, 25991, 20214, 31867, 22411, 58, 32] @ ext)))"

text \<open>\<open>s.startswith(prefix)\<close>.\<close>

definition py_startswith :: "pystr \<Rightarrow> pystr \<Rightarrow> bool" where
  "py_startswith s prefix \<longleftrightarrow> take (length prefix) s = prefix"

section \<open>Properties of strip and slices\<close>

lemma takeWhile_len_le:
  assumes "j < length w" "\<not> P (w ! j)"
  shows "length (takeWhile P w) \<le> j"
proof (rule ccontr)
  assume "\<not> length (takeWhile P w) \<le> j"
  then have lt: "j < length (takeWhile P w)" by simp
  then have "takeWhile P w ! j = w ! j" by (rule takeWhile_nth)
  moreover have "takeWhile P w ! j \<in> set (takeWhile P w)" using lt by simp
  ultimately show False using assms(2) by (auto dest: set_takeWhileD)
qed

lemma rev_dropWhile_rev:
  "rev (dropWhile P (rev v)) = take (length v - length (takeWhile P (rev v))) v"
proof -
  have "rev (dropWhile P (rev v)) = rev (drop (length (takeWhile P (rev v))) (rev v))"
    by (simp only: dropWhile_eq_drop)
  also have "\<dots> = take (length v - length (takeWhile P (rev v))) v"
    by (simp only: rev_drop rev_rev_ident length_rev)
  finally show ?thesis .
qed

lemma py_strip_as_slice:
  "py_strip w = take (length w - length (takeWhile py_isspace w)
                       - length (takeWhile py_isspace (rev (drop (length (takeWhile py_isspace w)) w))))
                     (drop (length (takeWhile py_isspace w)) w)"
  unfolding py_strip_def
  by (simp only: rev_dropWhile_rev dropWhile_eq_drop[of py_isspace w] length_drop)

lemma strip_spans:
  assumes jk: "j \<le> k" "k < length w"
    and nj: "\<not> py_isspace (w ! j)" and nk: "\<not> py_isspace (w ! k)"
  shows "\<exists>a b. a \<le> j \<and> k < b \<and> b \<le> length w \<and> py_strip w = take (b - a) (drop a w)"
proof -
  let ?a = "length (takeWhile py_isspace w)"
  let ?v = "drop ?a w"
  let ?r = "length (takeWhile py_isspace (rev ?v))"
  have j: "j < length w" using jk by simp
  have a: "?a \<le> j" using j nj by (rule takeWhile_len_le)
  have "?r \<le> length w - 1 - k"
  proof -
    let ?k = "length w - 1 - k"
    have k: "?k < length (rev ?v)" using jk a by simp
    have "rev ?v ! ?k = ?v ! (length ?v - 1 - ?k)"
      using k by (simp add: rev_nth)
    also have "length ?v - 1 - ?k = k - ?a" using jk a by simp
    also have "?v ! (k - ?a) = w ! k" using jk a by simp
    finally have "\<not> py_isspace (rev ?v ! ?k)" using nk by simp
    with k show ?thesis by (rule takeWhile_len_le)
  qed
  then have b: "k < length w - ?r" using jk by simp
  have "py_strip w = take (length w - ?a - ?r) ?v"
    by (rule py_strip_as_slice)
  moreover have "length w - ?a - ?r = (length w - ?r) - ?a" by simp
  ultimately have "py_strip w = take ((length w - ?r) - ?a) ?v" by simp
  with a b show ?thesis by (intro exI[of _ ?a] exI[of _ "length w - ?r"]) simp
qed

lemma py_slice_window:
  "0 \<le> s \<Longrightarrow> s \<le> e \<Longrightarrow> e \<le> int (length xs) \<Longrightarrow>
   py_slice xs s e = take (nat e - nat s) (drop (nat s) xs)"
  by (simp add: py_slice_def Let_def min_def nat_diff_distrib)

lemma py_slice_whole: "py_slice xs 0 (int (length xs)) = xs"
  by (simp add: py_slice_def Let_def)

lemma window_spans:
  assumes s: "0 \<le> s" "s \<le> e" "e \<le> int (length text)"
    and jk: "nat s \<le> j" "j \<le> k" "k < nat e"
    and nj: "\<not> py_isspace (text ! j)" and nk: "\<not> py_isspace (text ! k)"
  shows "\<exists>a b. a \<le> j \<and> k < b \<and> b \<le> length text \<and>
           py_strip (py_slice text s e) = take (b - a) (drop a text)"
proof -
  let ?n = "nat e - nat s"
  let ?w = "take ?n (drop (nat s) text)"
  have w: "py_slice text s e = ?w" using s by (rule py_slice_window)
  have en: "nat e \<le> length text" using s by simp
  have lw: "length ?w = ?n" using en by simp
  have k': "k - nat s < length ?w" unfolding lw using jk by arith
  have j': "j - nat s \<le> k - nat s" using jk by arith
  have "?w ! (j - nat s) = text ! j" "?w ! (k - nat s) = text ! k" using jk en by simp_all
  with nj nk have "\<not> py_isspace (?w ! (j - nat s))" "\<not> py_isspace (?w ! (k - nat s))" by simp_all
  from strip_spans[OF j' k' this] obtain a b where
    ab: "a \<le> j - nat s" "k - nat s < b" "b \<le> length ?w"
    and st: "py_strip ?w = take (b - a) (drop a ?w)" by blast
  have le: "b - a \<le> ?n - a" using ab(3) unfolding lw by arith
  have "drop a ?w = take (?n - a) (drop (a + nat s) text)"
    by (simp add: drop_take)
  then have "take (b - a) (drop a ?w) = take (min (b - a) (?n - a)) (drop (a + nat s) text)"
    by (simp only: take_take)
  then have "take (b - a) (drop a ?w) = take (b - a) (drop (a + nat s) text)"
    using le by (simp only: min_absorb1)
  with st w have eq: "py_strip (py_slice text s e) = take ((b + nat s) - (a + nat s)) (drop (a + nat s) text)"
    by simp
  have bn: "b \<le> ?n" using ab(3) unfolding lw .
  have "a + nat s \<le> j" "k < b + nat s" "b + nat s \<le> length text"
    using ab(1,2) bn jk en by arith+
  with eq show ?thesis by blast
qed

section \<open>The chunking loop\<close>

lemma clamp_nonneg: "0 \<le> (if x < 0 then 0 else (x::int))"
  by simp

lemma clamp_le: "0 \<le> ov \<Longrightarrow> 0 \<le> x \<Longrightarrow> (if x - ov < 0 then 0 else x - ov) \<le> (x::int)"
  by simp

lemma chunk_loop_done:
  "\<not> start < int (length text) \<Longrightarrow> chunk_loop text csz overlap start chunks = Some chunks"
  by (simp add: chunk_loop.simps[of "text" csz overlap start chunks])

lemma chunk_loop_step:
  "start < int (length text) \<Longrightarrow>
   chunk_loop text csz overlap start chunks =
     (let e = min (start + csz) (int (length text));
          chunk = py_strip (py_slice text start e);
          chunks' = (if chunk \<noteq> [] then chunks @ [chunk] else chunks);
          s' = (if e - overlap < 0 then 0 else e - overlap)
      in if s' \<ge> int (length text) \<or> e = int (length text) then Some chunks'
         else chunk_loop text csz overlap s' chunks')"
  by (simp add: chunk_loop.simps[of "text" csz overlap start chunks] Let_def)

lemma chunk_loop_total:
  "0 < csz \<Longrightarrow> overlap < csz \<Longrightarrow> 0 \<le> start \<Longrightarrow>
   \<exists>cs. chunk_loop text csz overlap start chunks = Some cs"
proof (induction "nat (int (length text) - start)" arbitrary: start chunks rule: less_induct)
  case less
  let ?L = "int (length text)"
  show ?case
  proof (cases "start < ?L")
    case False
    then show ?thesis by (simp add: chunk_loop_done)
  next
    case lt: True
    let ?e = "min (start + csz) ?L"
    let ?s = "(if ?e - overlap < 0 then 0 else ?e - overlap)"
    let ?c = "py_strip (py_slice text start ?e)"
    let ?cs = "(if ?c \<noteq> [] then chunks @ [?c] else chunks)"
    note step = chunk_loop_step[OF lt, of csz overlap chunks, unfolded Let_def]
    show ?thesis
    proof (cases "?s \<ge> ?L \<or> ?e = ?L")
      case True
      then have "chunk_loop text csz overlap start chunks = Some ?cs"
        unfolding step by (simp only: if_True)
      then show ?thesis by blast
    next
      case False
      then have eq: "chunk_loop text csz overlap start chunks = chunk_loop text csz overlap ?s ?cs"
        unfolding step by (simp only: if_False)
      from False have e: "?e = start + csz" and sl: "?s < ?L"
        by (auto simp: min_def split: if_splits)
      have adv: "start < ?s" using e less.prems by simp
      have "nat (?L - ?s) < nat (?L - start)" using adv sl lt by simp
      moreover have "0 \<le> ?s" by (rule clamp_nonneg)
      ultimately have "\<exists>cs. chunk_loop text csz overlap ?s ?cs = Some cs"
        using less.hyps[of ?s ?cs] less.prems by blast
      with eq show ?thesis by (simp only:)
    qed
  qed
qed


lemma covered_byI:
  assumes "a \<le> i" "i < b" "b \<le> length text" "take (b - a) (drop a text) \<in> set cs"
  shows "covered_by text cs i"
proof -
  have "py_slice text (int a) (int b) = take (nat (int b) - nat (int a)) (drop (nat (int a)) text)"
    using assms(1-3) by (intro py_slice_window) simp_all
  then have "py_slice text (int a) (int b) \<in> set cs" using assms(4) by simp
  moreover have "a \<in> {0..i}" "b \<in> {i<..length text}" using assms(1-3) by simp_all
  ultimately show ?thesis unfolding covered_by_def by blast
qed

lemma chunk_loop_spans:
  assumes "0 < csz" "0 \<le> overlap" "overlap < csz" "0 \<le> start"
  shows "\<exists>cs. chunk_loop text csz overlap start chunks = Some cs \<and> set chunks \<subseteq> set cs \<and>
           (\<forall>j k m. j \<le> k \<and> k < length text \<and>
                \<not> py_isspace (text ! j) \<and> \<not> py_isspace (text ! k) \<and>
                start + int m * (csz - overlap) \<le> int j \<and>
                int k < start + int m * (csz - overlap) + csz \<longrightarrow>
              (\<exists>a b. a \<le> j \<and> k < b \<and> b \<le> length text \<and> take (b - a) (drop a text) \<in> set cs))"
  using assms(4)
proof (induction "nat (int (length text) - start)" arbitrary: start chunks rule: less_induct)
  case less
  let ?L = "int (length text)"
  let ?step = "csz - overlap"
  have step: "0 < ?step" using assms(3) by simp
  show ?case
  proof (cases "start < ?L")
    case False
    then have "chunk_loop text csz overlap start chunks = Some chunks"
      by (rule chunk_loop_done)
    moreover have "False" if "k < length text" "start + int m * ?step \<le> int j" "j \<le> k" for j k m
    proof -
      have "0 \<le> int m * ?step" using step by simp
      with that False show False by linarith
    qed
    ultimately show ?thesis by blast
  next
    case lt: True
    let ?e = "min (start + csz) ?L"
    let ?s = "(if ?e - overlap < 0 then 0 else ?e - overlap)"
    let ?c = "py_strip (py_slice text start ?e)"
    let ?cs = "(if ?c \<noteq> [] then chunks @ [?c] else chunks)"
    note unfold = chunk_loop_step[OF lt, of csz overlap chunks, unfolded Let_def]
    have se: "start < ?e" "?e \<le> ?L" using lt assms(1) by simp_all
    have e0: "0 \<le> ?e" using se(1) less.prems by linarith
    have s_le_e: "?s \<le> ?e" using assms(2) e0 by (rule clamp_le)
    have sub: "set chunks \<subseteq> set ?cs" by auto
    have win: "\<exists>a b. a \<le> j \<and> k < b \<and> b \<le> length text \<and> take (b - a) (drop a text) \<in> set ?cs"
      if jk: "nat start \<le> j" "j \<le> k" "k < nat ?e"
        and ns: "\<not> py_isspace (text ! j)" "\<not> py_isspace (text ! k)" for j k
    proof -
      from window_spans[OF less.prems _ se(2) jk ns] se(1)
      obtain a b where ab: "a \<le> j" "k < b" "b \<le> length text"
        and c: "?c = take (b - a) (drop a text)" by auto
      have "length (take (b - a) (drop a text)) = b - a" using ab by simp
      moreover have "0 < b - a" using ab jk(2) by arith
      ultimately have "take (b - a) (drop a text) \<noteq> []" by auto
      then have "take (b - a) (drop a text) \<in> set ?cs" using c by simp
      with ab show ?thesis by blast
    qed
    show ?thesis
    proof (cases "?s \<ge> ?L \<or> ?e = ?L")
      case True
      then have res: "chunk_loop text csz overlap start chunks = Some ?cs"
        unfolding unfold by (simp only: if_True)
      from True s_le_e se(2) have eL: "?e = ?L" by linarith
      have "\<exists>a b. a \<le> j \<and> k < b \<and> b \<le> length text \<and> take (b - a) (drop a text) \<in> set ?cs"
        if h: "j \<le> k" "k < length text" "\<not> py_isspace (text ! j)" "\<not> py_isspace (text ! k)"
          "start + int m * ?step \<le> int j" for j k m
      proof -
        have "0 \<le> int m * ?step" using step by simp
        with h(5) less.prems have "nat start \<le> j" by linarith
        moreover have "k < nat ?e" using h(2) eL by simp
        ultimately show ?thesis using win h(1,3,4) by blast
      qed
      with res sub show ?thesis by blast
    next
      case False
      then have eq: "chunk_loop text csz overlap start chunks = chunk_loop text csz overlap ?s ?cs"
        unfolding unfold by (simp only: if_False)
      from False have e: "?e = start + csz" and sl: "?s < ?L"
        by (auto simp: min_def split: if_splits)
      have s_eq: "?s = start + ?step" using e step less.prems by simp
      have adv: "start < ?s" using s_eq step by simp
      have "nat (?L - ?s) < nat (?L - start)" using adv sl lt by simp
      moreover have s0: "0 \<le> ?s" by (rule clamp_nonneg)
      ultimately obtain cs where
        cs: "chunk_loop text csz overlap ?s ?cs = Some cs" "set ?cs \<subseteq> set cs"
        and cov: "\<forall>j k m. j \<le> k \<and> k < length text \<and>
                \<not> py_isspace (text ! j) \<and> \<not> py_isspace (text ! k) \<and>
                ?s + int m * ?step \<le> int j \<and> int k < ?s + int m * ?step + csz \<longrightarrow>
              (\<exists>a b. a \<le> j \<and> k < b \<and> b \<le> length text \<and> take (b - a) (drop a text) \<in> set cs)"
        using less.hyps[of ?s ?cs] by blast
      have "\<exists>a b. a \<le> j \<and> k < b \<and> b \<le> length text \<and> take (b - a) (drop a text) \<in> set cs"
        if h: "j \<le> k" "k < length text" "\<not> py_isspace (text ! j)" "\<not> py_isspace (text ! k)"
          "start + int m * ?step \<le> int j" "int k < start + int m * ?step + csz" for j k m
      proof (cases m)
        case 0
        with h(5) less.prems have "nat start \<le> j" by simp
        moreover have "k < nat ?e" using h(2,6) 0 e by simp
        ultimately obtain a b where "a \<le> j" "k < b" "b \<le> length text"
          "take (b - a) (drop a text) \<in> set ?cs"
          using win h(1,3,4) by blast
        with cs(2) show ?thesis by blast
      next
        case (Suc m')
        have "int m * ?step = int m' * ?step + ?step"
          unfolding Suc by (simp add: algebra_simps)
        with h(5,6) s_eq have "?s + int m' * ?step \<le> int j" "int k < ?s + int m' * ?step + csz"
          by linarith+
        with cov h(1-4) show ?thesis by blast
      qed
      moreover have "set chunks \<subseteq> set cs" using sub cs(2) by blast
      ultimately show ?thesis using eq cs(1) by auto
    qed
  qed
qed

lemma simple_chunk_text_ok:
  "0 < csz \<Longrightarrow> overlap < csz \<Longrightarrow>
   simple_chunk_text text csz overlap = map_option Inr (chunk_loop text csz overlap 0 [])"
  by (simp add: simple_chunk_text_def)

lemma chunk_loop_short:
  assumes "0 < csz" "int (length text) \<le> csz"
  shows "chunk_loop text csz overlap 0 [] = Some (if py_strip text = [] then [] else [py_strip text])"
proof (cases "text = []")
  case True
  then show ?thesis by (simp add: chunk_loop_done py_strip_def)
next
  case False
  then have lt: "0 < int (length text)" by simp
  have e: "min (0 + csz) (int (length text)) = int (length text)" using assms(2) by simp
  show ?thesis
    unfolding chunk_loop_step[OF lt, of csz overlap "[]", unfolded Let_def] e
    by (simp add: py_slice_whole)
qed

section \<open>Claims about fixed-window chunking\<close>

text \<open>
  Claim C8. For every text, every size > 0 and every overlap with 0 <= overlap < size, the
  fixed-window chunking loop terminates, also when the overlap is as close to the size as
  it can be: \<open>simple_chunk_text\<close> returns a fragment list, and the loop returns from
  every state with a non-negative start position.
\<close>

theorem fixed_window_loop_terminates:
  assumes "0 < chunk_size" "0 \<le> overlap" "overlap < chunk_size"
  shows "(\<exists>chunks. simple_chunk_text text chunk_size overlap = Some (Inr chunks)) \<and>
         (0 \<le> start \<longrightarrow> (\<exists>chunks. chunk_loop text chunk_size overlap start chunks0 = Some chunks))"
proof -
  have "\<exists>cs. chunk_loop text chunk_size overlap s c = Some cs" if "0 \<le> s" for s c
    using assms(1,3) that by (rule chunk_loop_total)
  then show ?thesis using assms by (auto simp: simple_chunk_text_ok)
qed

theorem fixed_window_loop_terminates_witness:
  "(0::int) < 3 \<and> (0::int) \<le> 2 \<and> (2::int) < 3 \<and>
   simple_chunk_text [97, 98, 99, 100, 101] 3 2 =
     Some (Inr [[97, 98, 99], [98, 99, 100], [99, 100, 101]]) \<and>
   chunk_loop [97, 98, 99, 100, 101] 3 2 1 [[97, 98, 99]] =
     Some [[97, 98, 99], [98, 99, 100], [99, 100, 101]]"
  using fixed_window_loop_terminates[of 3 2 "[97, 98, 99, 100, 101]" 1 "[[97, 98, 99]]"]
  by (simp add: simple_chunk_text_def chunk_loop.simps py_strip_def py_slice_def py_isspace_def Let_def)

text \<open>
  Claim C5. For every text and every pair of parameters of the contract, that is with
  size > 0, the chunk operation fails exactly when the constraint \<open>overlap < size\<close> is
  violated, and then with the ValueError \<open>overlap must be < chunk_size\<close> (the
  configuration error of the code); whenever \<open>overlap < size\<close> holds, and so whenever
  \<open>0 \<le> overlap < size\<close>, it raises no error and returns a fragment list.
\<close>

theorem simple_chunk_text_fails_iff:
  assumes "0 < chunk_size"
  shows "(simple_chunk_text text chunk_size overlap =
            Some (Inl (ValueError (ascii ''overlap must be < chunk_size''))) \<longleftrightarrow>
          \<not> overlap < chunk_size) \<and>
         ((\<exists>e. simple_chunk_text text chunk_size overlap = Some (Inl e)) \<longleftrightarrow>
          \<not> overlap < chunk_size) \<and>
         ((\<exists>chunks. simple_chunk_text text chunk_size overlap = Some (Inr chunks)) \<longleftrightarrow>
          overlap < chunk_size)"
proof (cases "overlap < chunk_size")
  case True
  with assms obtain cs where "chunk_loop text chunk_size overlap 0 [] = Some cs"
    using chunk_loop_total[of chunk_size overlap 0 "text" "[]"] by auto
  with True assms show ?thesis by (auto simp: simple_chunk_text_ok)
next
  case False
  with assms show ?thesis by (auto simp: simple_chunk_text_def)
qed

theorem simple_chunk_text_fails_iff_witness:
  "(0::int) < 2 \<and>
   simple_chunk_text [97, 98] 2 2 = Some (Inl (ValueError (ascii ''overlap must be < chunk_size''))) \<and>
   simple_chunk_text [97, 98] 2 3 = Some (Inl (ValueError (ascii ''overlap must be < chunk_size''))) \<and>
   simple_chunk_text [97, 98] 2 1 = Some (Inr [[97, 98]])"
proof -
  have pos: "(0::int) < 2" by simp
  have "simple_chunk_text [97, 98] 2 1 = Some (Inr [[97, 98]])"
    by (simp add: simple_chunk_text_def chunk_loop.simps py_strip_def py_slice_def py_isspace_def Let_def)
  then show ?thesis
    using simple_chunk_text_fails_iff[OF pos, of "[97, 98]" 2]
      simple_chunk_text_fails_iff[OF pos, of "[97, 98]" 3]
    by simp
qed

text \<open>
  Claim C4, as stated: a text shorter than the size yields exactly one fragment. A text of
  one space is shorter than size 2 and yields no fragment: the window strips to the empty
  string, which is not emitted.
\<close>

theorem short_text_one_fragment_counterexample:
  "int (length [32::nat]) < 2 \<and> simple_chunk_text [32] 2 0 = Some (Inr [])"
  by (simp add: simple_chunk_text_def chunk_loop.simps py_strip_def py_slice_def py_isspace_def Let_def)

text \<open>
  Claim C4, amended. For every size > 0 and every overlap < size, chunking the empty text
  yields the empty fragment sequence without error, and chunking a text whose length is
  strictly less than the size yields exactly one fragment, the stripped text, when the
  text has a non-whitespace character, and no fragment when it has none.
\<close>

theorem short_text_chunks:
  assumes "0 < chunk_size" "overlap < chunk_size"
  shows "simple_chunk_text [] chunk_size overlap = Some (Inr []) \<and>
         (int (length text) < chunk_size \<longrightarrow>
            simple_chunk_text text chunk_size overlap =
              Some (Inr (if py_strip text = [] then [] else [py_strip text])))"
  using assms chunk_loop_short[of chunk_size "text" overlap]
  by (simp add: simple_chunk_text_ok chunk_loop_done)

theorem short_text_chunks_witness:
  "(0::int) < 5 \<and> (1::int) < 5 \<and> simple_chunk_text [] 5 1 = Some (Inr []) \<and>
   int (length [32, 97, 98, 32::nat]) < 5 \<and>
   simple_chunk_text [32, 97, 98, 32] 5 1 = Some (Inr [[97, 98]])"
  using short_text_chunks[of 5 1 "[32, 97, 98, 32]"]
  by (simp add: py_strip_def py_isspace_def)

text \<open>
  Claim C1, as stated: every character of the input is covered by an emitted fragment.
  Each window is stripped before it is emitted, so a whitespace character can be in no
  fragment: for \<open>"a b"\<close> with size 1 the fragments are \<open>"a"\<close> and \<open>"b"\<close>, and the
  space at position 1 is in neither.
\<close>

theorem every_character_covered_counterexample:
  "simple_chunk_text [97, 32, 98] 1 0 = Some (Inr [[97], [98]]) \<and>
   [97, 32, 98] ! 1 \<notin> set (concat [[97], [98::nat]]) \<and>
   \<not> covered_by [97, 32, 98] [[97], [98]] 1"
proof -
  have "\<not> covered_by [97, 32, 98] [[97], [98]] 1"
    by (simp add: covered_by_def atLeastAtMost_upt greaterThanAtMost_upt py_slice_def Let_def)
  then show ?thesis
    by (simp add: simple_chunk_text_def chunk_loop.simps py_strip_def py_slice_def py_isspace_def Let_def)
qed

text \<open>
  Claim C1, amended. For every text, every size > 0 and every overlap with
  0 <= overlap < size, fixed-window chunking returns fragments that cover every
  character of the text that a window does not strip: every non-whitespace character,
  and every character, whitespace or not, that lies between two non-whitespace
  characters of one window \<open>text[n * (size - overlap) : n * (size - overlap) + size]\<close>.
  A position \<open>i\<close> is covered when some emitted fragment is \<open>text[a:b]\<close> with
  \<open>a \<le> i < b\<close>. Only whitespace that is leading or trailing in every window that holds it
  is left without this guarantee.
\<close>

theorem fixed_window_covers:
  assumes "0 < chunk_size" "0 \<le> overlap" "overlap < chunk_size"
  shows "\<exists>chunks. simple_chunk_text text chunk_size overlap = Some (Inr chunks) \<and>
           (\<forall>i < length text.
              (\<not> py_isspace (text ! i) \<longrightarrow> covered_by text chunks i) \<and>
              (\<forall>j k n. j \<le> i \<and> i \<le> k \<and> k < length text \<and>
                   \<not> py_isspace (text ! j) \<and> \<not> py_isspace (text ! k) \<and>
                   int n * (chunk_size - overlap) \<le> int j \<and>
                   int k < int n * (chunk_size - overlap) + chunk_size \<longrightarrow>
                 covered_by text chunks i))"
proof -
  let ?step = "chunk_size - overlap"
  have step: "0 < ?step" using assms(3) by simp
  from chunk_loop_spans[OF assms order_refl] obtain cs where
    run: "chunk_loop text chunk_size overlap 0 [] = Some cs"
    and all: "\<forall>j k m. j \<le> k \<and> k < length text \<and>
                \<not> py_isspace (text ! j) \<and> \<not> py_isspace (text ! k) \<and>
                0 + int m * ?step \<le> int j \<and> int k < 0 + int m * ?step + chunk_size \<longrightarrow>
              (\<exists>a b. a \<le> j \<and> k < b \<and> b \<le> length text \<and> take (b - a) (drop a text) \<in> set cs)"
    by blast
  have spans: "\<exists>a b. a \<le> j \<and> k < b \<and> b \<le> length text \<and> take (b - a) (drop a text) \<in> set cs"
    if "j \<le> k" "k < length text" "\<not> py_isspace (text ! j)" "\<not> py_isspace (text ! k)"
      "int m * ?step \<le> int j" "int k < int m * ?step + chunk_size" for j k m
  proof -
    from that have "j \<le> k \<and> k < length text \<and>
                \<not> py_isspace (text ! j) \<and> \<not> py_isspace (text ! k) \<and>
                0 + int m * ?step \<le> int j \<and> int k < 0 + int m * ?step + chunk_size"
      by simp
    with all show ?thesis by blast
  qed
  have between: "covered_by text cs i"
    if h: "j \<le> i" "i \<le> k" "k < length text" "\<not> py_isspace (text ! j)" "\<not> py_isspace (text ! k)"
      "int n * ?step \<le> int j" "int k < int n * ?step + chunk_size" for i j k n
  proof -
    have "j \<le> k" using h(1,2) by simp
    from spans[OF this h(3-7)] obtain a b where
      ab: "a \<le> j" "k < b" "b \<le> length text" "take (b - a) (drop a text) \<in> set cs" by blast
    have "a \<le> i" "i < b" using ab(1,2) h(1,2) by simp_all
    then show ?thesis using ab(3,4) by (rule covered_byI)
  qed
  have single: "covered_by text cs i" if i: "i < length text" "\<not> py_isspace (text ! i)" for i
  proof -
    let ?q = "int i div ?step"
    have q0: "0 \<le> ?q" using step by (simp add: pos_imp_zdiv_nonneg_iff)
    have "int i = ?q * ?step + int i mod ?step" by (rule div_mult_mod_eq[symmetric])
    moreover have "0 \<le> int i mod ?step" "int i mod ?step < ?step"
      using step by simp_all
    ultimately have "?q * ?step \<le> int i" "int i < ?q * ?step + ?step" by linarith+
    moreover have "int (nat ?q) = ?q" using q0 by simp
    ultimately have "int (nat ?q) * ?step \<le> int i" "int i < int (nat ?q) * ?step + chunk_size"
      using assms(2) by simp_all
    with between[of i i i "nat ?q"] i show ?thesis by simp
  qed
  from run assms have "simple_chunk_text text chunk_size overlap = Some (Inr cs)"
    by (simp add: simple_chunk_text_ok)
  with between single show ?thesis by blast
qed

theorem fixed_window_covers_witness:
  "(0::int) < 3 \<and> (0::int) \<le> 2 \<and> (2::int) < 3 \<and>
   simple_chunk_text [97, 98, 32, 99, 100] 3 2 = Some (Inr [[97, 98], [98, 32, 99], [99, 100]]) \<and>
   py_isspace ([97, 98, 32, 99, 100] ! 2) \<and>
   covered_by [97, 98, 32, 99, 100] [[97, 98], [98, 32, 99], [99, 100]] 2 \<and>
   covered_by [97, 98, 32, 99, 100] [[97, 98], [98, 32, 99], [99, 100]] 4"
proof -
  let ?text = "[97, 98, 32, 99, 100::nat]"
  have val: "simple_chunk_text ?text 3 2 = Some (Inr [[97, 98], [98, 32, 99], [99, 100]])"
    by (simp add: simple_chunk_text_def chunk_loop.simps py_strip_def py_slice_def py_isspace_def Let_def)
  from fixed_window_covers[of 3 2 ?text] val
  have all: "\<forall>i < length ?text.
      (\<not> py_isspace (?text ! i) \<longrightarrow> covered_by ?text [[97, 98], [98, 32, 99], [99, 100]] i) \<and>
      (\<forall>j k n. j \<le> i \<and> i \<le> k \<and> k < length ?text \<and>
           \<not> py_isspace (?text ! j) \<and> \<not> py_isspace (?text ! k) \<and>
           int n * (3 - 2) \<le> int j \<and> int k < int n * (3 - 2) + 3 \<longrightarrow>
         covered_by ?text [[97, 98], [98, 32, 99], [99, 100]] i)"
    by simp
  have sp: "py_isspace (?text ! 2)" by (simp add: py_isspace_def)
  have "2 < length ?text" by simp
  with all have "\<forall>j k n. j \<le> 2 \<and> 2 \<le> k \<and> k < length ?text \<and>
           \<not> py_isspace (?text ! j) \<and> \<not> py_isspace (?text ! k) \<and>
           int n * (3 - 2) \<le> int j \<and> int k < int n * (3 - 2) + 3 \<longrightarrow>
         covered_by ?text [[97, 98], [98, 32, 99], [99, 100]] 2"
    by blast
  then have "(1::nat) \<le> 2 \<and> (2::nat) \<le> 3 \<and> 3 < length ?text \<and>
           \<not> py_isspace (?text ! 1) \<and> \<not> py_isspace (?text ! 3) \<and>
           int 1 * (3 - 2) \<le> int 1 \<and> int 3 < int 1 * (3 - 2) + 3 \<longrightarrow>
         covered_by ?text [[97, 98], [98, 32, 99], [99, 100]] 2"
    by blast
  then have c2: "covered_by ?text [[97, 98], [98, 32, 99], [99, 100]] 2"
    by (simp add: py_isspace_def)
  have "4 < length ?text" "\<not> py_isspace (?text ! 4)" by (simp_all add: py_isspace_def)
  with all have c4: "covered_by ?text [[97, 98], [98, 32, 99], [99, 100]] 4" by blast
  note facts = val sp c2 c4
  show ?thesis by (intro conjI) (simp, simp, simp, (fact facts)+)
qed

section \<open>Batched embedding\<close>

lemma py_slice_nat:
  "py_slice xs (int i) (int (i + n)) = take n (drop i xs)"
proof (cases "i \<le> length xs")
  case True
  then show ?thesis
    by (cases "i + n \<le> length xs") (simp_all add: py_slice_def Let_def min_def nat_diff_distrib)
next
  case False
  then show ?thesis by (simp add: py_slice_def Let_def min_def)
qed

lemma py_slice_nat':
  "py_slice xs (int i) (int i + int n) = take n (drop i xs)"
  using py_slice_nat[of xs i n] by simp



lemma embed_text_Strs:
  "embed_text create (Strs texts) =
     (fst (embed_documents create texts), map_sum id Vectors (snd (embed_documents create texts)))"
proof -
  obtain sent res where r: "embed_documents create texts = (sent, res)"
    by (cases "embed_documents create texts")
  then have "(if length texts > DEFAULT_TOP_RERANK then embed_batches create texts 0 [] []
              else ([texts], create texts)) = (sent, res)"
    by (simp add: embed_documents_def)
  then show ?thesis using r by (cases res) (simp_all add: embed_text_def Let_def)
qed

lemma embed_batches_answers:
  assumes "\<forall>batch. create batch = Inr (answer batch)"
  shows "\<exists>bs. embed_batches create texts i acc sent = (sent @ bs, Inr (acc @ concat (map answer bs))) \<and>
              concat bs = drop i texts"
  using assms
proof (induction create texts i acc sent rule: embed_batches.induct)
  case (1 create texts i embeddings sent)
  let ?n = "DEFAULT_TOP_RERANK"
  let ?batch = "take ?n (drop i texts)"
  show ?case
  proof (cases "i < length texts")
    case False
    then have "embed_batches create texts i embeddings sent = (sent @ [], Inr (embeddings @ concat (map answer [])))"
      by (simp add: embed_batches.simps[of create texts i])
    moreover have "concat [] = drop i texts" using False by simp
    ultimately show ?thesis by blast
  next
    case lt: True
    have b: "py_slice texts (int i) (int (i + ?n)) = ?batch" by (rule py_slice_nat)
    have cr: "create ?batch = Inr (answer ?batch)" using "1.prems" by simp
    have step: "embed_batches create texts i embeddings sent =
        embed_batches create texts (i + ?n) (embeddings @ answer ?batch) (sent @ [?batch])"
      using lt cr by (simp add: embed_batches.simps[of create texts i] Let_def py_slice_nat')
    from "1.IH"[OF lt b[symmetric] cr "1.prems"] obtain bs where
      bs: "embed_batches create texts (i + ?n) (embeddings @ answer ?batch) (sent @ [?batch]) =
             ((sent @ [?batch]) @ bs, Inr ((embeddings @ answer ?batch) @ concat (map answer bs)))"
        "concat bs = drop (i + ?n) texts"
      by (auto simp: py_slice_nat')
    have "?batch @ drop (i + ?n) texts = drop i texts"
      using append_take_drop_id[of ?n "drop i texts"] by (simp add: add.commute)
    with bs(2) have "concat (?batch # bs) = drop i texts" by simp
    moreover have "embed_batches create texts i embeddings sent =
        (sent @ (?batch # bs), Inr (embeddings @ concat (map answer (?batch # bs))))"
      using step bs(1) by simp
    ultimately show ?thesis by blast
  qed
qed

lemma embed_documents_answers:
  assumes "\<forall>batch. create batch = Inr (answer batch)"
  shows "snd (embed_documents create texts) =
           Inr (concat (map answer (fst (embed_documents create texts)))) \<and>
         concat (fst (embed_documents create texts)) = texts"
proof (cases "length texts > DEFAULT_TOP_RERANK")
  case True
  from embed_batches_answers[OF assms, of texts 0 "[]" "[]"] obtain bs where
    "embed_batches create texts 0 [] [] = (bs, Inr (concat (map answer bs)))" "concat bs = texts"
    by auto
  with True show ?thesis by (simp add: embed_documents_def)
next
  case False
  with assms show ?thesis by (simp add: embed_documents_def)
qed

section \<open>Claims about batched embedding\<close>



text \<open>
  Claim C7, as stated: the embed operation fails whenever the number of vectors returned
  by the provider differs from the number of input texts. \<open>embed_text\<close> has no such
  check: with a provider that answers one text with no vector it returns the empty list.
\<close>

theorem embed_count_mismatch_counterexample:
  "embed_text (\<lambda>batch. Inr []) (Strs [[97]]) = ([[[97]]], Inr (Vectors ([] :: nat list list))) \<and>
   embed_documents (\<lambda>batch. Inr []) [[97]] = ([[[97]]], Inr ([] :: nat list list)) \<and>
   length ([] :: nat list list) \<noteq> length [[97::nat]]"
  by (simp add: embed_text_def embed_documents_def DEFAULT_TOP_RERANK_def)

text \<open>
  Claim C7, amended. \<open>embed_text\<close> and \<open>embed_documents\<close> check no count: with a
  provider that answers every request, whatever the number of vectors in an answer, they
  raise nothing and return the concatenation of the answers to the requests sent, so for
  at most 10 texts exactly what the provider returned for them. The count is checked by
  the caller of \<open>embed_text\<close>, \<open>main\<close> of embedder.py: for a non-empty list of texts it
  raises a RuntimeError whenever the number of vectors differs from the number of texts
  and goes on with the vectors otherwise; for an empty list it raises ZeroDivisionError
  before it embeds anything.
\<close>

theorem count_checked_by_main:
  "((\<forall>batch. create batch = Inr (answer batch)) \<longrightarrow>
      snd (embed_documents create texts) =
        Inr (concat (map answer (fst (embed_documents create texts)))) \<and>
      snd (embed_text create (Strs texts)) =
        Inr (Vectors (concat (map answer (fst (embed_text create (Strs texts)))))) \<and>
      concat (fst (embed_documents create texts)) = texts \<and>
      concat (fst (embed_text create (Strs texts))) = texts \<and>
      (length texts \<le> DEFAULT_TOP_RERANK \<longrightarrow>
         embed_documents create texts = ([texts], Inr (answer texts)) \<and>
         embed_text create (Strs texts) = ([texts], Inr (Vectors (answer texts))))) \<and>
   (texts = [] \<longrightarrow> embedder_main_vectors create texts = Inl ZeroDivisionError) \<and>
   (texts \<noteq> [] \<and> snd (embed_text create (Strs texts)) = Inr r \<and>
    embeddings_len r \<noteq> length texts \<longrightarrow>
      embedder_main_vectors create texts = Inl (RuntimeError COUNT_MISMATCH)) \<and>
   (texts \<noteq> [] \<and> snd (embed_text create (Strs texts)) = Inr r \<and>
    embeddings_len r = length texts \<longrightarrow>
      embedder_main_vectors create texts = Inr r) \<and>
   (embedder_main_vectors create texts = Inr r \<longrightarrow>
      texts \<noteq> [] \<and> embeddings_len r = length texts \<and>
      snd (embed_text create (Strs texts)) = Inr r)"
proof -
  have a: "snd (embed_documents create texts) =
        Inr (concat (map answer (fst (embed_documents create texts)))) \<and>
      snd (embed_text create (Strs texts)) =
        Inr (Vectors (concat (map answer (fst (embed_text create (Strs texts)))))) \<and>
      concat (fst (embed_documents create texts)) = texts \<and>
      concat (fst (embed_text create (Strs texts))) = texts \<and>
      (length texts \<le> DEFAULT_TOP_RERANK \<longrightarrow>
         embed_documents create texts = ([texts], Inr (answer texts)) \<and>
         embed_text create (Strs texts) = ([texts], Inr (Vectors (answer texts))))"
    if h: "\<forall>batch. create batch = Inr (answer batch)"
  proof -
    note d = embed_documents_answers[OF h, of texts]
    have small: "embed_documents create texts = ([texts], Inr (answer texts))"
      if "length texts \<le> DEFAULT_TOP_RERANK"
      using that h by (simp add: embed_documents_def)
    from d small show ?thesis by (simp add: embed_text_Strs)
  qed
  have b: "texts = [] \<longrightarrow> embedder_main_vectors create texts = Inl ZeroDivisionError"
    by (simp add: embedder_main_vectors_def)
  have c: "texts \<noteq> [] \<and> snd (embed_text create (Strs texts)) = Inr r \<and>
      embeddings_len r \<noteq> length texts \<longrightarrow>
      embedder_main_vectors create texts = Inl (RuntimeError COUNT_MISMATCH)"
    by (simp add: embedder_main_vectors_def)
  have d: "texts \<noteq> [] \<and> snd (embed_text create (Strs texts)) = Inr r \<and>
      embeddings_len r = length texts \<longrightarrow>
      embedder_main_vectors create texts = Inr r"
    by (simp add: embedder_main_vectors_def)
  have e: "embedder_main_vectors create texts = Inr r \<longrightarrow>
      texts \<noteq> [] \<and> embeddings_len r = length texts \<and>
      snd (embed_text create (Strs texts)) = Inr r"
    by (auto simp: embedder_main_vectors_def split: sum.splits if_splits)
  from a b c d e show ?thesis by blast
qed

theorem count_checked_by_main_witness:
  "embed_documents (\<lambda>batch. Inr []) [[97], [98]] = ([[[97], [98]]], Inr ([] :: nat list list)) \<and>
   embed_text (\<lambda>batch. Inr []) (Strs [[97], [98]]) = ([[[97], [98]]], Inr (Vectors ([] :: nat list list))) \<and>
   embedder_main_vectors (\<lambda>batch. Inr ([] :: nat list list)) [[97], [98]] =
     Inl (RuntimeError COUNT_MISMATCH) \<and>
   embedder_main_vectors (\<lambda>batch. Inr ([] :: nat list list)) [] = Inl ZeroDivisionError \<and>
   embedder_main_vectors (\<lambda>batch. Inr (map (\<lambda>t. t) batch)) [[97], [98]] =
     Inr (Vectors [[97], [98::nat]])"
proof -
  let ?none = "\<lambda>batch :: pystr list. (Inr [] :: error + nat list list)"
  let ?echo = "\<lambda>batch :: pystr list. (Inr (map (\<lambda>t. t) batch) :: error + nat list list)"
  have h: "\<forall>batch. ?none batch = Inr ((\<lambda>b. []) batch)" by simp
  have small: "length [[97], [98::nat]] \<le> DEFAULT_TOP_RERANK" by (simp add: DEFAULT_TOP_RERANK_def)
  note t = count_checked_by_main[of ?none "\<lambda>b. []" "[[97], [98]]" "Vectors []"]
  from t h small have docs: "embed_documents ?none [[97], [98]] = ([[[97], [98]]], Inr [])"
    and whole: "embed_text ?none (Strs [[97], [98]]) = ([[[97], [98]]], Inr (Vectors []))"
    by blast+
  from whole have "snd (embed_text ?none (Strs [[97], [98]])) = Inr (Vectors [])" by simp
  with t have raised: "embedder_main_vectors ?none [[97], [98]] = Inl (RuntimeError COUNT_MISMATCH)"
    by simp
  have zero: "embedder_main_vectors ?none [] = Inl ZeroDivisionError"
    using count_checked_by_main[of ?none "\<lambda>b. []" "[]" "Vectors []"] by simp
  have h2: "\<forall>batch. ?echo batch = Inr ((\<lambda>b. map (\<lambda>t. t) b) batch)" by simp
  note t2 = count_checked_by_main[of ?echo "\<lambda>b. map (\<lambda>t. t) b" "[[97], [98]]" "Vectors [[97], [98]]"]
  from t2 h2 small have "embed_text ?echo (Strs [[97], [98]]) = ([[[97], [98]]], Inr (Vectors [[97], [98]]))"
    by simp
  then have "snd (embed_text ?echo (Strs [[97], [98]])) = Inr (Vectors [[97], [98]])" by simp
  with t2 have ok: "embedder_main_vectors ?echo [[97], [98]] = Inr (Vectors [[97], [98]])"
    by simp
  note facts = docs whole raised zero ok
  show ?thesis by (intro conjI) (fact facts)+
qed

section \<open>Prompt assembly\<close>

lemma make_prompt_parts_nth:
  "k < length docs \<Longrightarrow>
   make_prompt_parts i docs ! k = fragment_part (i + k) (doc_source (docs ! k)) (make_prompt_text (docs ! k))"
proof (induction docs arbitrary: i k)
  case Nil
  then show ?case by simp
next
  case (Cons d docs)
  then show ?case by (cases k) simp_all
qed

lemma build_prompt_parts_nth:
  "k < length docs \<Longrightarrow>
   build_prompt_parts i docs ! k = fragment_part (i + k) (doc_source (docs ! k)) (build_prompt_text (docs ! k))"
proof (induction docs arbitrary: i k)
  case Nil
  then show ?case by simp
next
  case (Cons d docs)
  then show ?case by (cases k) simp_all
qed

lemma length_make_prompt_parts: "length (make_prompt_parts i docs) = length docs"
  by (induction docs arbitrary: i) simp_all

lemma length_build_prompt_parts: "length (build_prompt_parts i docs) = length docs"
  by (induction docs arbitrary: i) simp_all

lemma int_of_str_snoc: "int_of_str (s @ [c]) = 10 * int_of_str s + (c - 48)"
  by (simp add: int_of_str_def)

lemma int_of_str_str_int: "int_of_str (str_int n) = n"
proof (induction n rule: str_int.induct)
  case (1 n)
  show ?case
  proof (cases "n < 10")
    case True
    then show ?thesis by (simp add: str_int.simps[of n] int_of_str_def)
  next
    case False
    with 1 have "int_of_str (str_int (n div 10)) = n div 10" by simp
    with False show ?thesis by (simp add: str_int.simps[of n] int_of_str_snoc)
  qed
qed

lemma str_int_digits: "str_int n \<noteq> [] \<and> (\<forall>c \<in> set (str_int n). 48 \<le> c \<and> c \<le> 57)"
proof (induction n rule: str_int.induct)
  case (1 n)
  show ?case
  proof (cases "n < 10")
    case True
    then show ?thesis by (simp add: str_int.simps[of n])
  next
    case False
    with 1 have "\<forall>c \<in> set (str_int (n div 10)). 48 \<le> c \<and> c \<le> 57" by simp
    moreover have "n mod 10 < 10" by simp
    ultimately show ?thesis using False by (auto simp: str_int.simps[of n])
  qed
qed

lemma str_int_no_leading_zero: "0 < n \<Longrightarrow> hd (str_int n) \<noteq> 48"
proof (induction n rule: str_int.induct)
  case (1 n)
  show ?case
  proof (cases "n < 10")
    case True
    with "1.prems" show ?thesis by (simp add: str_int.simps[of n])
  next
    case False
    then have "0 < n div 10" by simp
    with 1 False have "hd (str_int (n div 10)) \<noteq> 48" by simp
    moreover have "str_int (n div 10) \<noteq> []" using str_int_digits by blast
    ultimately show ?thesis using False by (simp add: str_int.simps[of n])
  qed
qed

lemma py_join_snoc: "xs \<noteq> [] \<Longrightarrow> py_join sep (xs @ [y]) = py_join sep xs @ sep @ y"
  by (induction sep xs rule: py_join.induct) simp_all

lemma py_join_map_upt:
  "0 < n \<Longrightarrow> py_join sep (map f [0..<n]) = concat (map (\<lambda>k. f k @ sep) [0..<n - 1]) @ f (n - 1)"
proof (induction n)
  case 0
  then show ?case by simp
next
  case (Suc m)
  show ?case
  proof (cases m)
    case 0
    then show ?thesis by simp
  next
    case (Suc m')
    have ne: "map f [0..<Suc m'] \<noteq> []" by simp
    have ih: "py_join sep (map f [0..<Suc m']) = concat (map (\<lambda>k. f k @ sep) [0..<m']) @ f m'"
      using Suc.IH unfolding Suc by simp
    have "py_join sep (map f [0..<Suc (Suc m')]) = py_join sep (map f [0..<Suc m'] @ [f (Suc m')])"
      by simp
    also have "\<dots> = py_join sep (map f [0..<Suc m']) @ sep @ f (Suc m')"
      using ne by (rule py_join_snoc)
    also have "\<dots> = concat (map (\<lambda>k. f k @ sep) [0..<Suc m']) @ f (Suc m')"
      unfolding ih by simp
    finally show ?thesis unfolding Suc by simp
  qed
qed

lemma make_prompt_parts_map:
  "make_prompt_parts i docs =
     map (\<lambda>k. fragment_part (i + k) (doc_source (docs ! k)) (make_prompt_text (docs ! k))) [0..<length docs]"
  by (rule nth_equalityI) (simp_all add: length_make_prompt_parts make_prompt_parts_nth)

lemma build_prompt_parts_map:
  "build_prompt_parts i docs =
     map (\<lambda>k. fragment_part (i + k) (doc_source (docs ! k)) (build_prompt_text (docs ! k))) [0..<length docs]"
  by (rule nth_equalityI) (simp_all add: length_build_prompt_parts build_prompt_parts_nth)

lemma instructions_in_literals:
  "py_in BASED_ON_FRAGMENTS MAKE_PROMPT_HEAD" "py_in I_DONT_KNOW MAKE_PROMPT_HEAD"
  "py_in LIST_SOURCES MAKE_PROMPT_TAIL"
  "py_in BASED_ON_FRAGMENTS BUILD_PROMPT_HEAD" "py_in I_DONT_KNOW BUILD_PROMPT_HEAD"
  "py_in LIST_SOURCES BUILD_PROMPT_TAIL"
  by (simp_all add: BASED_ON_FRAGMENTS_def MAKE_PROMPT_HEAD_def I_DONT_KNOW_def LIST_SOURCES_def
      MAKE_PROMPT_TAIL_def BUILD_PROMPT_HEAD_def BUILD_PROMPT_TAIL_def)

section \<open>Claims about prompt assembly\<close>

text \<open>
  Claim C6, as stated: the fragments are followed by the verbatim query and an
  instruction that restricts the model to the supplied fragments and requires it to cite
  sources by label. In \<open>make_prompt\<close> the restricting instruction opens the prompt, and
  what follows the query asks only for a short answer and a list of the cited sources:
  it holds neither the restriction nor the word for the fragments of the labels.
\<close>

theorem instruction_after_query_counterexample:
  "make_prompt [113]
     [\<lparr>page_content = Some [97], content = None, metadata = None, str_of = []\<rparr>] =
     MAKE_PROMPT_HEAD @
     [91, 29255, 27573, 32, 49, 32, 124, 32, 26469, 28304, 58, 32,
      117, 110, 107, 110, 111, 119, 110, 93, 10, 97, 10] @
     [10, 29992, 25143, 38382, 39064, 65306] @ [113] @
     [10, 10, 35831, 32473, 20986, 31616, 27905, 20934, 30830, 30340, 22238, 31572, 65292,
      24182, 22312, 26411, 23614, 21015, 20986, 24341, 29992, 26469, 28304, 12290] \<and>
   \<not> py_in BASED_ON_FRAGMENTS
     [10, 10, 35831, 32473, 20986, 31616, 27905, 20934, 30830, 30340, 22238, 31572, 65292,
      24182, 22312, 26411, 23614, 21015, 20986, 24341, 29992, 26469, 28304, 12290] \<and>
   \<not> py_in (take 2 FRAGMENT_NUMBER)
     [10, 10, 35831, 32473, 20986, 31616, 27905, 20934, 30830, 30340, 22238, 31572, 65292,
      24182, 22312, 26411, 23614, 21015, 20986, 24341, 29992, 26469, 28304, 12290]"
  by (simp add: make_prompt_def fragment_part_def doc_source_def make_prompt_text_def
      str_int.simps ascii_def FRAGMENT_OPEN_def SOURCE_SEP_def USER_QUESTION_def
      MAKE_PROMPT_TAIL_def LIST_SOURCES_def BASED_ON_FRAGMENTS_def FRAGMENT_NUMBER_def)

text \<open>
  Claim C6, amended. For every query and every non-empty retrieval-result sequence, the
  assembled prompt is, in this order: the opening instruction, which restricts the model
  to the supplied fragments and asks for "I do not know" when they hold nothing relevant;
  the fragments in ranking order, separated by a newline, each as a label with its
  1-based position, in decimal without leading zero, and its source, followed by its text;
  the verbatim query; and the closing instruction to list the cited sources, which in
  \<open>build_prompt\<close> asks for file name and fragment number and in \<open>make_prompt\<close> names no
  label.
\<close>

theorem prompt_fragments_query_instructions:
  assumes "docs \<noteq> []"
  shows "make_prompt query docs =
           MAKE_PROMPT_HEAD @
           concat (map (\<lambda>k. FRAGMENT_OPEN @ str_int (k + 1) @ SOURCE_SEP @ doc_source (docs ! k) @
                            [93, 10] @ make_prompt_text (docs ! k) @ [10] @ [10])
                       [0..<length docs - 1]) @
           (FRAGMENT_OPEN @ str_int (length docs) @ SOURCE_SEP @ doc_source (last docs) @
            [93, 10] @ make_prompt_text (last docs) @ [10]) @
           [10] @ USER_QUESTION @ query @ MAKE_PROMPT_TAIL \<and>
         build_prompt query docs =
           BUILD_PROMPT_HEAD @
           concat (map (\<lambda>k. FRAGMENT_OPEN @ str_int (k + 1) @ SOURCE_SEP @ doc_source (docs ! k) @
                            [93, 10] @ build_prompt_text (docs ! k) @ [10] @ [10])
                       [0..<length docs - 1]) @
           (FRAGMENT_OPEN @ str_int (length docs) @ SOURCE_SEP @ doc_source (last docs) @
            [93, 10] @ build_prompt_text (last docs) @ [10]) @
           [10, 10] @ USER_QUESTION @ query @ BUILD_PROMPT_TAIL \<and>
         (\<forall>k < length docs.
            (\<forall>c \<in> set (str_int (k + 1)). 48 \<le> c \<and> c \<le> 57) \<and>
            hd (str_int (k + 1)) \<noteq> 48 \<and> int_of_str (str_int (k + 1)) = k + 1) \<and>
         py_in BASED_ON_FRAGMENTS MAKE_PROMPT_HEAD \<and> py_in I_DONT_KNOW MAKE_PROMPT_HEAD \<and>
         py_in BASED_ON_FRAGMENTS BUILD_PROMPT_HEAD \<and> py_in I_DONT_KNOW BUILD_PROMPT_HEAD \<and>
         py_in LIST_SOURCES MAKE_PROMPT_TAIL \<and> \<not> py_in (take 2 FRAGMENT_NUMBER) MAKE_PROMPT_TAIL \<and>
         py_in LIST_SOURCES BUILD_PROMPT_TAIL \<and> py_in FRAGMENT_NUMBER BUILD_PROMPT_TAIL"
proof -
  let ?n = "length docs"
  have n: "0 < ?n" using assms by simp
  have lastd: "docs ! (?n - 1) = last docs" using assms by (simp add: last_conv_nth)
  have sn: "Suc (?n - 1) = ?n" "Suc (?n - Suc 0) = ?n" using n by simp_all
  have mp: "py_join [10] (make_prompt_parts 1 docs) =
      concat (map (\<lambda>k. fragment_part (1 + k) (doc_source (docs ! k)) (make_prompt_text (docs ! k)) @ [10])
                  [0..<?n - 1]) @
      fragment_part (1 + (?n - 1)) (doc_source (docs ! (?n - 1))) (make_prompt_text (docs ! (?n - 1)))"
    unfolding make_prompt_parts_map by (rule py_join_map_upt[OF n])
  have bp: "py_join [10] (build_prompt_parts 1 docs) =
      concat (map (\<lambda>k. fragment_part (1 + k) (doc_source (docs ! k)) (build_prompt_text (docs ! k)) @ [10])
                  [0..<?n - 1]) @
      fragment_part (1 + (?n - 1)) (doc_source (docs ! (?n - 1))) (build_prompt_text (docs ! (?n - 1)))"
    unfolding build_prompt_parts_map by (rule py_join_map_upt[OF n])
  have make: "make_prompt query docs =
           MAKE_PROMPT_HEAD @
           concat (map (\<lambda>k. FRAGMENT_OPEN @ str_int (k + 1) @ SOURCE_SEP @ doc_source (docs ! k) @
                            [93, 10] @ make_prompt_text (docs ! k) @ [10] @ [10])
                       [0..<length docs - 1]) @
           (FRAGMENT_OPEN @ str_int (length docs) @ SOURCE_SEP @ doc_source (last docs) @
            [93, 10] @ make_prompt_text (last docs) @ [10]) @
           [10] @ USER_QUESTION @ query @ MAKE_PROMPT_TAIL"
    unfolding make_prompt_def Let_def mp lastd
    by (simp add: fragment_part_def sn add.commute)
  have build: "build_prompt query docs =
           BUILD_PROMPT_HEAD @
           concat (map (\<lambda>k. FRAGMENT_OPEN @ str_int (k + 1) @ SOURCE_SEP @ doc_source (docs ! k) @
                            [93, 10] @ build_prompt_text (docs ! k) @ [10] @ [10])
                       [0..<length docs - 1]) @
           (FRAGMENT_OPEN @ str_int (length docs) @ SOURCE_SEP @ doc_source (last docs) @
            [93, 10] @ build_prompt_text (last docs) @ [10]) @
           [10, 10] @ USER_QUESTION @ query @ BUILD_PROMPT_TAIL"
    using assms unfolding build_prompt_def Let_def bp lastd
    by (simp add: fragment_part_def sn add.commute)
  have digits: "\<forall>k < length docs.
            (\<forall>c \<in> set (str_int (k + 1)). 48 \<le> c \<and> c \<le> 57) \<and>
            hd (str_int (k + 1)) \<noteq> 48 \<and> int_of_str (str_int (k + 1)) = k + 1"
    using str_int_digits str_int_no_leading_zero int_of_str_str_int by simp
  have tails: "\<not> py_in (take 2 FRAGMENT_NUMBER) MAKE_PROMPT_TAIL" "py_in FRAGMENT_NUMBER BUILD_PROMPT_TAIL"
    by (simp_all add: FRAGMENT_NUMBER_def MAKE_PROMPT_TAIL_def BUILD_PROMPT_TAIL_def LIST_SOURCES_def)
  note facts = make build digits instructions_in_literals tails
  show ?thesis by (intro conjI) (fact facts)+
qed

theorem prompt_fragments_query_instructions_witness:
  "[\<lparr>page_content = Some [97], content = None,
      metadata = Some [ascii ''source'' \<mapsto> [102]], str_of = []\<rparr>,
    \<lparr>page_content = None, content = Some [98], metadata = None, str_of = [120]\<rparr>,
    \<lparr>page_content = None, content = None, metadata = Some Map.empty, str_of = [121]\<rparr>] \<noteq> [] \<and>
   make_prompt [113]
     [\<lparr>page_content = Some [97], content = None,
        metadata = Some [ascii ''source'' \<mapsto> [102]], str_of = []\<rparr>,
      \<lparr>page_content = None, content = Some [98], metadata = None, str_of = [120]\<rparr>,
      \<lparr>page_content = None, content = None, metadata = Some Map.empty, str_of = [121]\<rparr>] =
     MAKE_PROMPT_HEAD @
       (FRAGMENT_OPEN @ [49] @ SOURCE_SEP @ [102] @ [93, 10] @ [97] @ [10]) @ [10] @
       (FRAGMENT_OPEN @ [50] @ SOURCE_SEP @ ascii ''unknown'' @ [93, 10] @ [98] @ [10]) @ [10] @
       (FRAGMENT_OPEN @ [51] @ SOURCE_SEP @ ascii ''unknown'' @ [93, 10] @ [121] @ [10]) @
       [10] @ USER_QUESTION @ [113] @ MAKE_PROMPT_TAIL \<and>
   build_prompt [113]
     [\<lparr>page_content = Some [97], content = None,
        metadata = Some [ascii ''source'' \<mapsto> [102]], str_of = []\<rparr>,
      \<lparr>page_content = None, content = Some [98], metadata = None, str_of = [120]\<rparr>,
      \<lparr>page_content = None, content = None, metadata = Some Map.empty, str_of = [121]\<rparr>] =
     BUILD_PROMPT_HEAD @
       (FRAGMENT_OPEN @ [49] @ SOURCE_SEP @ [102] @ [93, 10] @ [97] @ [10]) @ [10] @
       (FRAGMENT_OPEN @ [50] @ SOURCE_SEP @ ascii ''unknown'' @ [93, 10] @ [120] @ [10]) @ [10] @
       (FRAGMENT_OPEN @ [51] @ SOURCE_SEP @ ascii ''unknown'' @ [93, 10] @ [121] @ [10]) @
       [10, 10] @ USER_QUESTION @ [113] @ BUILD_PROMPT_TAIL \<and>
   str_int 12 = [49, 50]"
proof -
  let ?docs = "[\<lparr>page_content = Some [97], content = None,
      metadata = Some [ascii ''source'' \<mapsto> [102]], str_of = []\<rparr>,
    \<lparr>page_content = None, content = Some [98], metadata = None, str_of = [120]\<rparr>,
    \<lparr>page_content = None, content = None, metadata = Some Map.empty, str_of = [121]\<rparr>]"
  have ne: "?docs \<noteq> []" by simp
  have d: "str_int (Suc 0) = [49]" "str_int (Suc (Suc 0)) = [50]" "str_int (Suc (Suc (Suc 0))) = [51]"
    "str_int 12 = [49, 50]"
    by (simp_all add: str_int.simps[of "Suc 0"] str_int.simps[of "Suc (Suc 0)"]
        str_int.simps[of "Suc (Suc (Suc 0))"] str_int.simps[of 12] str_int.simps[of 1])
  have up: "[0..<length ?docs - 1] = [0, Suc 0]" by (simp add: upt_rec)
  note t = prompt_fragments_query_instructions[OF ne, of "[113]"]
  have m: "make_prompt [113] ?docs =
     MAKE_PROMPT_HEAD @
       (FRAGMENT_OPEN @ [49] @ SOURCE_SEP @ [102] @ [93, 10] @ [97] @ [10]) @ [10] @
       (FRAGMENT_OPEN @ [50] @ SOURCE_SEP @ ascii ''unknown'' @ [93, 10] @ [98] @ [10]) @ [10] @
       (FRAGMENT_OPEN @ [51] @ SOURCE_SEP @ ascii ''unknown'' @ [93, 10] @ [121] @ [10]) @
       [10] @ USER_QUESTION @ [113] @ MAKE_PROMPT_TAIL"
    unfolding t[THEN conjunct1] up
    by (simp add: d doc_source_def make_prompt_text_def)
  have b: "build_prompt [113] ?docs =
     BUILD_PROMPT_HEAD @
       (FRAGMENT_OPEN @ [49] @ SOURCE_SEP @ [102] @ [93, 10] @ [97] @ [10]) @ [10] @
       (FRAGMENT_OPEN @ [50] @ SOURCE_SEP @ ascii ''unknown'' @ [93, 10] @ [120] @ [10]) @ [10] @
       (FRAGMENT_OPEN @ [51] @ SOURCE_SEP @ ascii ''unknown'' @ [93, 10] @ [121] @ [10]) @
       [10, 10] @ USER_QUESTION @ [113] @ BUILD_PROMPT_TAIL"
    unfolding t[THEN conjunct2, THEN conjunct1] up
    by (simp add: d doc_source_def build_prompt_text_def)
  note facts = ne m b d(4)
  show ?thesis by (intro conjI) (fact facts)+
qed

text \<open>
  Claim C3, as stated: with no retrieval result the assembled prompt tells the model
  that no relevant material was found. \<open>make_prompt\<close> has no case for an empty sequence:
  for the empty query and no result it returns its opening instruction, the question
  label and its closing instruction, and the note that nothing was retrieved occurs
  nowhere in it.
\<close>

theorem empty_results_prompt_counterexample:
  "make_prompt [] [] =
     [19979, 38754, 26159, 26816, 32034, 21040, 30340, 30693, 35782, 29255, 27573, 65288, 20165,
      20379, 21442, 32771, 65289, 12290, 35831, 42, 42, 20165, 22522, 20110, 36825, 20123, 29255,
      27573, 42, 42, 22238, 31572, 29992, 25143, 38382, 39064, 65292, 22914, 26524, 29255, 27573,
      20013, 27809, 26377, 30456, 20851, 20449, 24687, 65292, 35831, 22238, 31572, 8220, 25105,
      19981, 30693, 36947, 8221, 12290, 10, 10, 10, 29992, 25143, 38382, 39064, 65306, 10, 10,
      35831, 32473, 20986, 31616, 27905, 20934, 30830, 30340, 22238, 31572, 65292, 24182, 22312,
      26411, 23614, 21015, 20986, 24341, 29992, 26469, 28304, 12290] \<and>
   \<not> py_in NOT_RETRIEVED (make_prompt [] [])"
  by (simp add: make_prompt_def MAKE_PROMPT_HEAD_def MAKE_PROMPT_TAIL_def USER_QUESTION_def
      BASED_ON_FRAGMENTS_def I_DONT_KNOW_def LIST_SOURCES_def NOT_RETRIEVED_def)

text \<open>
  Claim C3, amended. For every query and an empty sequence of retrieval results,
  \<open>build_prompt\<close> of the quickstart returns the question followed by a note that no
  relevant document was retrieved and the instruction to answer "I do not know";
  \<open>make_prompt\<close> of llm_with_rag.py returns its usual prompt around an empty context:
  the instruction to answer only from the fragments, and "I do not know" when they hold
  nothing relevant, then the question and the closing instruction, with no note that
  nothing was found.
\<close>

theorem empty_results_prompt:
  "build_prompt query [] = USER_QUESTION @ query @ NO_DOCS_NOTE \<and>
   py_in NOT_RETRIEVED NO_DOCS_NOTE \<and> py_in I_DONT_KNOW NO_DOCS_NOTE \<and>
   make_prompt query [] = MAKE_PROMPT_HEAD @ [10] @ USER_QUESTION @ query @ MAKE_PROMPT_TAIL \<and>
   py_in I_DONT_KNOW MAKE_PROMPT_HEAD \<and>
   \<not> py_in NOT_RETRIEVED MAKE_PROMPT_HEAD \<and> \<not> py_in NOT_RETRIEVED ([10] @ USER_QUESTION) \<and>
   \<not> py_in NOT_RETRIEVED MAKE_PROMPT_TAIL"
proof -
  have "build_prompt query [] = USER_QUESTION @ query @ NO_DOCS_NOTE"
    by (simp add: build_prompt_def)
  moreover have "make_prompt query [] = MAKE_PROMPT_HEAD @ [10] @ USER_QUESTION @ query @ MAKE_PROMPT_TAIL"
    by (simp add: make_prompt_def)
  moreover have "py_in NOT_RETRIEVED NO_DOCS_NOTE" "py_in I_DONT_KNOW NO_DOCS_NOTE"
    by (simp_all add: NO_DOCS_NOTE_def NOT_RETRIEVED_def I_DONT_KNOW_def)
  moreover have "\<not> py_in NOT_RETRIEVED MAKE_PROMPT_HEAD" "\<not> py_in NOT_RETRIEVED ([10] @ USER_QUESTION)"
    "\<not> py_in NOT_RETRIEVED MAKE_PROMPT_TAIL"
    by (simp_all add: MAKE_PROMPT_HEAD_def MAKE_PROMPT_TAIL_def USER_QUESTION_def
        BASED_ON_FRAGMENTS_def I_DONT_KNOW_def LIST_SOURCES_def NOT_RETRIEVED_def)
  ultimately show ?thesis using instructions_in_literals(2) by (simp only: simp_thms)
qed

section \<open>The quickstart chunking loop\<close>

lemma py_strip_Nil_iff: "py_strip s = [] \<longleftrightarrow> (\<forall>c \<in> set s. py_isspace c)"
proof
  assume "py_strip s = []"
  then have "dropWhile py_isspace (rev (dropWhile py_isspace s)) = []"
    by (simp add: py_strip_def)
  then have "\<forall>c \<in> set (dropWhile py_isspace s). py_isspace c"
    by (simp add: dropWhile_eq_Nil_conv)
  moreover have "\<forall>c \<in> set (takeWhile py_isspace s). py_isspace c"
    by (auto dest: set_takeWhileD)
  moreover have "set s = set (takeWhile py_isspace s) \<union> set (dropWhile py_isspace s)"
    by (metis set_append takeWhile_dropWhile_id)
  ultimately show "\<forall>c \<in> set s. py_isspace c" by blast
next
  assume "\<forall>c \<in> set s. py_isspace c"
  then have "dropWhile py_isspace s = []" by (simp add: dropWhile_eq_Nil_conv)
  then show "py_strip s = []" by (simp only: py_strip_def rev.simps dropWhile.simps)
qed

section \<open>Claims about the quickstart chunking loop\<close>

text \<open>
  Claim C10. In the quickstart chunking loop, when the window at the current start
  position, a position before the end of the text, strips to the empty string, the loop
  stops at that window: it returns the chunks and metadata collected so far, and the rest
  of the text, whatever it holds, yields no further fragment. In particular a document
  longer than \<open>CHUNK_SIZE\<close> whose first \<open>CHUNK_SIZE\<close> characters are whitespace
  yields no fragment at all.
\<close>

theorem blank_window_stops_loop:
  "(start < int (length txt) \<and>
    py_strip (py_slice txt start (min (start + chunk_size) (int (length txt)))) = [] \<longrightarrow>
      quickstart_chunk_loop txt source chunk_size chunk_overlap start idx st = Some st) \<and>
   (CHUNK_SIZE < int (length (doc_text doc)) \<and>
    (\<forall>c \<in> set (take 500 (doc_text doc)). py_isspace c) \<longrightarrow>
      quickstart_chunk_doc doc st = Some st)"
proof -
  have loop: "quickstart_chunk_loop t s cs co b i st = Some st"
    if "b < int (length t)" "py_strip (py_slice t b (min (b + cs) (int (length t)))) = []"
    for t s cs co b i
    using that by (simp add: quickstart_chunk_loop.simps[of t s cs co b i st] Let_def)
  have "quickstart_chunk_doc doc st = Some st"
    if len: "CHUNK_SIZE < int (length (doc_text doc))"
      and ws: "\<forall>c \<in> set (take 500 (doc_text doc)). py_isspace c"
  proof -
    have "py_slice (doc_text doc) 0 (min (0 + CHUNK_SIZE) (int (length (doc_text doc)))) =
            take 500 (doc_text doc)"
      using len by (simp add: py_slice_def Let_def CHUNK_SIZE_def)
    with ws have "py_strip (py_slice (doc_text doc) 0 (min (0 + CHUNK_SIZE) (int (length (doc_text doc))))) = []"
      by (simp only: py_strip_Nil_iff)
    moreover have "0 < int (length (doc_text doc))" using len unfolding CHUNK_SIZE_def by linarith
    ultimately show ?thesis unfolding quickstart_chunk_doc_def by (intro loop)
  qed
  with loop show ?thesis by blast
qed

theorem blank_window_stops_loop_witness:
  "(2::int) < int (length [97, 98, 32, 32, 99, 100::nat]) \<and>
   py_strip (py_slice [97, 98, 32, 32, 99, 100] 2 (min (2 + 2) (int (length [97, 98, 32, 32, 99, 100::nat])))) = [] \<and>
   quickstart_chunk_loop [97, 98, 32, 32, 99, 100] [102] 2 0 2 1
       ([[97, 98]], [\<lparr>meta_source = [102], chunk_index = 0\<rparr>]) =
     Some ([[97, 98]], [\<lparr>meta_source = [102], chunk_index = 0\<rparr>]) \<and>
   quickstart_chunk_loop [97, 98, 32, 32, 99, 100] [102] 2 0 0 0 ([], []) =
     Some ([[97, 98]], [\<lparr>meta_source = [102], chunk_index = 0\<rparr>]) \<and>
   CHUNK_SIZE < int (length (doc_text \<lparr>doc_text = replicate 500 32 @ [98], doc_name = [102]\<rparr>)) \<and>
   quickstart_chunk_doc \<lparr>doc_text = replicate 500 32 @ [98], doc_name = [102]\<rparr> ([], []) = Some ([], [])"
proof -
  have a: "(2::int) < int (length [97, 98, 32, 32, 99, 100::nat]) \<and>
      py_strip (py_slice [97, 98, 32, 32, 99, 100] 2 (min (2 + 2) (int (length [97, 98, 32, 32, 99, 100::nat])))) = []"
    by (simp add: py_strip_def py_slice_def py_isspace_def Let_def)
  have b: "CHUNK_SIZE < int (length (doc_text \<lparr>doc_text = replicate 500 32 @ [98], doc_name = [102]\<rparr>)) \<and>
      (\<forall>c \<in> set (take 500 (doc_text \<lparr>doc_text = replicate 500 32 @ [98], doc_name = [102]\<rparr>)). py_isspace c)"
    by (simp add: CHUNK_SIZE_def py_isspace_def)
  have c: "quickstart_chunk_loop [97, 98, 32, 32, 99, 100] [102] 2 0 0 0 ([], []) =
     Some ([[97, 98]], [\<lparr>meta_source = [102], chunk_index = 0\<rparr>])"
    by (simp add: quickstart_chunk_loop.simps py_strip_def py_slice_def py_isspace_def Let_def)
  have d: "quickstart_chunk_loop [97, 98, 32, 32, 99, 100] [102] 2 0 2 1
       ([[97, 98]], [\<lparr>meta_source = [102], chunk_index = 0\<rparr>]) =
     Some ([[97, 98]], [\<lparr>meta_source = [102], chunk_index = 0\<rparr>])"
    using a blank_window_stops_loop[of 2 "[97, 98, 32, 32, 99, 100]" 2 "[102]" 0 1
        "([[97, 98]], [\<lparr>meta_source = [102], chunk_index = 0\<rparr>])"]
    by blast
  have e: "quickstart_chunk_doc \<lparr>doc_text = replicate 500 32 @ [98], doc_name = [102]\<rparr> ([], []) = Some ([], [])"
    using b blank_window_stops_loop[of 0 "[]" 0 "[]" 0 0 "([], [])"
        "\<lparr>doc_text = replicate 500 32 @ [98], doc_name = [102]\<rparr>"]
    by blast
  note facts = a[THEN conjunct1] a[THEN conjunct2] b[THEN conjunct1] c d e
  show ?thesis by (intro conjI) (fact facts)+
qed

section \<open>Text extraction\<close>

lemma py_strip_keeps_prefix:
  assumes "p \<noteq> []" "\<not> py_isspace (hd p)" "\<not> py_isspace (last p)"
  shows "py_startswith (py_strip (p @ t)) p"
proof -
  let ?P = py_isspace
  from assms(1,2) have front: "dropWhile ?P (p @ t) = p @ t"
    by (cases p) simp_all
  from assms(1) obtain q x where p: "p = q @ [x]"
    by (cases p rule: rev_cases) auto
  with assms(3) have "\<not> ?P x" by simp
  then have keep_last: "dropWhile ?P (rev p) = rev p"
    unfolding p by simp
  have "\<exists>u. dropWhile ?P (rev t @ rev p) = u @ rev p"
  proof (cases "\<forall>x \<in> set (rev t). ?P x")
    case True
    then have "dropWhile ?P (rev t @ rev p) = dropWhile ?P (rev p)"
      by (intro dropWhile_append2) blast
    with keep_last have "dropWhile ?P (rev t @ rev p) = [] @ rev p" by simp
    then show ?thesis by blast
  next
    case False
    then obtain x where "x \<in> set (rev t)" "\<not> ?P x" by blast
    then have "dropWhile ?P (rev t @ rev p) = dropWhile ?P (rev t) @ rev p"
      by (rule dropWhile_append1)
    then show ?thesis by blast
  qed
  then obtain u where "dropWhile ?P (rev t @ rev p) = u @ rev p" by blast
  then have "py_strip (p @ t) = p @ rev u"
    unfolding py_strip_def front by simp
  then show ?thesis by (simp add: py_startswith_def)
qed

lemma except_clauses_printed:
  assumes "\<forall>s. console_print w s = None"
  shows "\<exists>rest. except_clauses w kind path (Inl e) = Inr (ERROR_TAG @ rest)"
  using assms by (cases e) (simp_all add: except_clauses_def printed_def)

lemma error_text_tagged:
  assumes "\<forall>s. console_print w s = None" "isl r"
  shows "\<exists>text_content. return_stripped (except_clauses w kind path r) = Inr text_content \<and>
           py_startswith text_content ERROR_TAG"
proof -
  have tag: "ERROR_TAG \<noteq> []" "\<not> py_isspace (hd ERROR_TAG)" "\<not> py_isspace (last ERROR_TAG)"
    by (simp_all add: ERROR_TAG_def ascii_def py_isspace_def)
  from assms(2) obtain e where r: "r = Inl e" by (cases r) simp_all
  from except_clauses_printed[OF assms(1), of kind path e] obtain rest where
    "except_clauses w kind path r = Inr (ERROR_TAG @ rest)" unfolding r by blast
  with py_strip_keeps_prefix[OF tag] show ?thesis by (simp add: return_stripped_def)
qed

text \<open>
  What the extractors do when every \<open>print\<close> returns: a missing file, or an exception in
  the \<open>try\<close> block, gives a returned string that begins with \<open>[ERROR]\<close>.
\<close>

lemma extractors_return_error_text_when_printed:
  assumes quiet: "\<forall>s. console_print w s = None"
  shows "(\<not> path_exists w path \<or> isl (extract_pdf_try w path) \<longrightarrow>
            (\<exists>t. extract_pdf w path = Inr t \<and> py_startswith t ERROR_TAG)) \<and>
         (\<not> path_exists w path \<or> isl (extract_excel_try w path) \<longrightarrow>
            (\<exists>t. extract_excel w path = Inr t \<and> py_startswith t ERROR_TAG)) \<and>
         (\<not> path_exists w path \<or> isl (extract_markdown_try w path) \<longrightarrow>
            (\<exists>t. extract_markdown w path = Inr t \<and> py_startswith t ERROR_TAG)) \<and>
         (\<not> path_exists w path \<or> isl (extract_word_try w path) \<longrightarrow>
            (\<exists>t. extract_word w path = Inr t \<and> py_startswith t ERROR_TAG)) \<and>
         (\<not> path_exists w path \<or> isl (extract_csv_try w path) \<longrightarrow>
            (\<exists>t. extract_csv w path = Inr t \<and> py_startswith t ERROR_TAG))"
proof -
  have missing: "isl (extract_pdf_try w path)" "isl (extract_excel_try w path)"
    "isl (extract_markdown_try w path)" "isl (extract_word_try w path)"
    "isl (extract_csv_try w path)" if "\<not> path_exists w path"
    using that
    by (simp_all add: extract_pdf_try_def extract_excel_try_def extract_markdown_try_def
        extract_word_try_def extract_csv_try_def)
  note tagged = error_text_tagged[OF quiet]
  show ?thesis
    unfolding extract_pdf_def extract_excel_def extract_markdown_def extract_word_def extract_csv_def
    using missing tagged by blast
qed

lemma missing_file_print_raises:
  assumes "\<not> path_exists w path"
    and "console_print w (ERROR_TAG @ [32, 25991, 20214, 26410, 25214, 21040, 58, 32] @
           ascii kind @ [32, 25991, 20214, 19981, 23384, 22312, 58, 32] @ path) = Some e"
  shows "return_stripped (except_clauses w kind' path' (Inl (missing_file kind path))) = Inl e"
  using assms(2) by (simp add: except_clauses_def missing_file_def printed_def return_stripped_def)

section \<open>Claims about text extraction\<close>

text \<open>
  Claim C9: for every path whose file does not exist, each extraction function returns a
  string that begins with \<open>[ERROR]\<close> instead of raising to its caller. The code prints the
  message inside the \<open>except\<close> clause before it keeps it, and an exception of that
  \<open>print\<close> leaves the function. On a standard output that encodes UTF-8, a missing file
  whose path holds the lone surrogate U+DCE9, the path \<open>"\udce9.pdf"\<close>, makes
  \<open>extract_pdf\<close>, and \<open>extract_file\<close> with it, raise UnicodeEncodeError; the same world
  returns the \<open>[ERROR]\<close> text for the path \<open>"a.pdf"\<close>.
\<close>

theorem extract_pdf_raises_from_print:
  "extract_pdf
     \<lparr>path_exists = \<lambda>p. False, pdf_open = \<lambda>p. Inr [], read_excel = \<lambda>p. Inr [],
      read_text = \<lambda>p. Inr [], re_sub_markdown = \<lambda>t. t,
      docx_open = \<lambda>p. Inr \<lparr>paragraphs = [], tables = []\<rparr>,
      read_csv = \<lambda>p enc. Inr (Inr []), detect_encoding = \<lambda>p. Inr None,
      splitext_lower = \<lambda>p. ascii ''.pdf'',
      console_print = \<lambda>s. if list_ex (\<lambda>c. 55296 \<le> c \<and> c \<le> 57343) s
                            then Some (UnicodeEncodeError (ascii ''surrogates not allowed''))
                            else None\<rparr>
     ([56553] @ ascii ''.pdf'') =
     Inl (UnicodeEncodeError (ascii ''surrogates not allowed'')) \<and>
   extract_file
     \<lparr>path_exists = \<lambda>p. False, pdf_open = \<lambda>p. Inr [], read_excel = \<lambda>p. Inr [],
      read_text = \<lambda>p. Inr [], re_sub_markdown = \<lambda>t. t,
      docx_open = \<lambda>p. Inr \<lparr>paragraphs = [], tables = []\<rparr>,
      read_csv = \<lambda>p enc. Inr (Inr []), detect_encoding = \<lambda>p. Inr None,
      splitext_lower = \<lambda>p. ascii ''.pdf'',
      console_print = \<lambda>s. if list_ex (\<lambda>c. 55296 \<le> c \<and> c \<le> 57343) s
                            then Some (UnicodeEncodeError (ascii ''surrogates not allowed''))
                            else None\<rparr>
     ([56553] @ ascii ''.pdf'') =
     Inl (UnicodeEncodeError (ascii ''surrogates not allowed'')) \<and>
   extract_file
     \<lparr>path_exists = \<lambda>p. False, pdf_open = \<lambda>p. Inr [], read_excel = \<lambda>p. Inr [],
      read_text = \<lambda>p. Inr [], re_sub_markdown = \<lambda>t. t,
      docx_open = \<lambda>p. Inr \<lparr>paragraphs = [], tables = []\<rparr>,
      read_csv = \<lambda>p enc. Inr (Inr []), detect_encoding = \<lambda>p. Inr None,
      splitext_lower = \<lambda>p. ascii ''.pdf'',
      console_print = \<lambda>s. if list_ex (\<lambda>c. 55296 \<le> c \<and> c \<le> 57343) s
                            then Some (UnicodeEncodeError (ascii ''surrogates not allowed''))
                            else None\<rparr>
     (ascii ''a.pdf'') =
     Inr (ascii ''[ERROR] '' @ [25991, 20214, 26410, 25214, 21040] @ ascii '': PDF '' @
          [25991, 20214, 19981, 23384, 22312] @ ascii '': a.pdf'')"
  by (simp add: extract_file_def extract_pdf_def extract_pdf_try_def except_clauses_def
      return_stripped_def printed_def missing_file_def ERROR_TAG_def ascii_def py_strip_def
      py_isspace_def)

end
